theory Spec2Isabelle
  imports Main "HOL-Library.Sublist"
begin

section \<open>Path utilities (drive-utils)\<close>

text \<open>
  JavaScript strings are modelled as \<open>string\<close>. \<open>s.startsWith(p)\<close> is \<open>prefix p s\<close>,
  \<open>s.endsWith(p)\<close> is \<open>suffix p s\<close>, \<open>s.slice(1)\<close> is \<open>drop 1 s\<close> and
  \<open>s.slice(0, -1)\<close> is \<open>butlast s\<close>. None of these operations throws.
\<close>

definition stripTrailingSlash :: "string \<Rightarrow> string" where
  "stripTrailingSlash path =
     (if length path \<le> 1 then path
      else if suffix ''/'' path then butlast path else path)"

definition stripLeadingSlash :: "string \<Rightarrow> string" where
  "stripLeadingSlash path = (if prefix ''/'' path then drop 1 path else path)"

text \<open>
  \<open>String.prototype.trim\<close> removes white space at both ends; of the characters a \<open>string\<close>
  can hold these are the codes 9 to 13, 32 and 160.
\<close>

definition is_js_whitespace :: "char \<Rightarrow> bool" where
  "is_js_whitespace c = ((of_char c :: nat) \<in> {9, 10, 11, 12, 13, 32, 160})"

definition trim :: "string \<Rightarrow> string" where
  "trim s = rev (dropWhile is_js_whitespace (rev (dropWhile is_js_whitespace s)))"

definition normalizeRootPath :: "string \<Rightarrow> string" where
  "normalizeRootPath rootPath =
     (if rootPath = [] then ''/''
      else
        (let n1 = trim rootPath;
             n2 = (if \<not> prefix ''/'' n1 then ''/'' @ n1 else n1)
         in if length n2 > 1 \<and> suffix ''/'' n2 then butlast n2 else n2))"

definition joinRootPath :: "string \<Rightarrow> string \<Rightarrow> string" where
  "joinRootPath rootPath path =
     (let root = normalizeRootPath rootPath;
          cleanPath = (if path \<noteq> [] then (if prefix ''/'' path then path else ''/'' @ path)
                       else [])
      in if path = [] \<or> cleanPath = ''/'' then root
         else if root = ''/'' then cleanPath
         else root @ cleanPath)"

section \<open>Platform primitives used by the bridge\<close>

text \<open>
  A thrown JavaScript exception is a value of \<open>js_error\<close>; a call that may throw returns
  \<open>js_error + 'a\<close> with \<open>Inl\<close> for the exception.
\<close>

datatype js_error =
    Error string
  | TypeError string
  | RangeError
  | InvalidCharacterError
  | SyntaxError

text \<open>
  \<open>String.prototype.toUpperCase\<close> on an HTTP method name. Method names are HTTP tokens, hence
  ASCII, where upper-casing maps \<open>a..z\<close> to \<open>A..Z\<close> and leaves every other character alone.
\<close>

definition toUpperCase_char :: "char \<Rightarrow> char" where
  "toUpperCase_char c =
     (let n = (of_char c :: nat) in if 97 \<le> n \<and> n \<le> 122 then char_of (n - 32) else c)"

definition toUpperCase :: "string \<Rightarrow> string" where
  "toUpperCase s = map toUpperCase_char s"

text \<open>
  \<open>atob\<close> is the forgiving-base64 decoder of the platform: ASCII whitespace is removed; if
  the length is then a multiple of 4, one or two trailing \<open>=\<close> are removed; a remaining length
  of 1 modulo 4 or any character outside the base64 alphabet throws; otherwise every character
  contributes 6 bits and incomplete trailing bits are dropped. The result is a binary string
  (one character per byte).
\<close>

definition b64_value :: "char \<Rightarrow> nat option" where
  "b64_value c =
     (let n = (of_char c :: nat) in
      if 65 \<le> n \<and> n \<le> 90 then Some (n - 65)
      else if 97 \<le> n \<and> n \<le> 122 then Some (n - 71)
      else if 48 \<le> n \<and> n \<le> 57 then Some (n + 4)
      else if n = 43 then Some 62
      else if n = 47 then Some 63
      else None)"

definition is_ascii_whitespace :: "char \<Rightarrow> bool" where
  "is_ascii_whitespace c = ((of_char c :: nat) \<in> {9, 10, 12, 13, 32})"

definition strip_b64_padding :: "string \<Rightarrow> string" where
  "strip_b64_padding s =
     (if length s mod 4 = 0 then
        (if suffix ''=='' s then butlast (butlast s)
         else if suffix ''='' s then butlast s else s)
      else s)"

fun b64_decode_sextets :: "nat list \<Rightarrow> nat list" where
  "b64_decode_sextets (a # b # c # d # rest) =
     (a * 4 + b div 16) # ((b mod 16) * 16 + c div 4) # ((c mod 4) * 64 + d)
       # b64_decode_sextets rest"
| "b64_decode_sextets [a, b, c] = [a * 4 + b div 16, (b mod 16) * 16 + c div 4]"
| "b64_decode_sextets [a, b] = [a * 4 + b div 16]"
| "b64_decode_sextets [a] = []"
| "b64_decode_sextets [] = []"

definition atob :: "string \<Rightarrow> string option" where
  "atob data =
     (let s = strip_b64_padding (filter (\<lambda>c. \<not> is_ascii_whitespace c) data) in
      if length s mod 4 = 1 then None
      else if list_ex (\<lambda>c. b64_value c = None) s then None
      else Some (map char_of (b64_decode_sextets (map (\<lambda>c. the (b64_value c)) s))))"

text \<open>\<open>s.split(sep)\<close> for a one-character separator: always at least one field.\<close>

fun split_on :: "char \<Rightarrow> string \<Rightarrow> string list" where
  "split_on sep [] = [[]]"
| "split_on sep (c # cs) =
     (if c = sep then [] # split_on sep cs
      else (case split_on sep cs of [] \<Rightarrow> [[c]] | p # ps \<Rightarrow> (c # p) # ps))"

text \<open>Array indexing \<open>xs[i]\<close>: \<open>undefined\<close> (here \<open>None\<close>) out of range.\<close>

definition at_index :: "'a list \<Rightarrow> nat \<Rightarrow> 'a option" where
  "at_index xs i = (if i < length xs then Some (xs ! i) else None)"

text \<open>
  \<open>parseInt(s, 10)\<close>: leading white space is skipped, an optional sign is read, then the
  longest run of decimal digits; no digit at all gives \<open>NaN\<close> (here \<open>None\<close>). Of the white
  space of the language a \<open>string\<close> can hold the codes 9 to 13, 32 and 160. The digits are
  read exactly, which is what JavaScript does for a value up to \<open>2^53\<close>; above that the
  source gets the nearest double (and \<open>Infinity\<close> from \<open>2^1024\<close> on), which this function
  does not round to. The arguments here are storage ids and file sizes.
\<close>

definition is_digit :: "char \<Rightarrow> bool" where
  "is_digit c = (48 \<le> (of_char c :: nat) \<and> (of_char c :: nat) \<le> 57)"

definition digits_value :: "string \<Rightarrow> nat" where
  "digits_value ds = foldl (\<lambda>acc c. acc * 10 + ((of_char c :: nat) - 48)) 0 ds"

definition is_str_whitespace :: "char \<Rightarrow> bool" where
  "is_str_whitespace c = ((of_char c :: nat) \<in> {9, 10, 11, 12, 13, 32, 160})"

definition parseInt10 :: "string \<Rightarrow> int option" where
  "parseInt10 s =
     (let t = dropWhile is_str_whitespace s;
          neg = prefix ''-'' t;
          u = (if prefix ''-'' t \<or> prefix ''+'' t then drop 1 t else t);
          ds = takeWhile is_digit u
      in if ds = [] then None
         else Some (if neg then - int (digits_value ds) else int (digits_value ds)))"

text \<open>\<open>a || b\<close> on a possibly undefined string: the empty string is falsy.\<close>

definition truthy :: "string option \<Rightarrow> bool" where
  "truthy v = (case v of None \<Rightarrow> False | Some s \<Rightarrow> s \<noteq> [])"

definition or_default :: "string option \<Rightarrow> string \<Rightarrow> string" where
  "or_default v d = (case v of None \<Rightarrow> d | Some s \<Rightarrow> if s = [] then d else s)"

section \<open>The WebDAV bridge (route dav.$storageId.$)\<close>

subsection \<open>Requests, responses and the environment\<close>

record env =
  WEBDAV_ENABLED :: "string option"
  WEBDAV_USERNAME :: "string option"
  WEBDAV_PASSWORD :: "string option"
  ADMIN_USERNAME :: "string option"
  ADMIN_PASSWORD :: "string option"

text \<open>
  The parts of the request and of the route parameters that the handlers read:
  \<open>request.method\<close>, the \<open>Authorization\<close>, \<open>Destination\<close> and \<open>content-type\<close> headers
  (\<open>None\<close> when \<open>headers.get\<close> returns \<open>null\<close>), \<open>params.storageId\<close>, \<open>params["*"]\<close>,
  the path name of \<open>request.url\<close> and the request body.
\<close>

record request =
  req_method :: string
  req_authorization :: "string option"
  req_destination :: "string option"
  req_content_type :: "string option"
  param_storageId :: "string option"
  param_splat :: "string option"
  req_pathname :: string
  req_body :: "nat list"

text \<open>A \<open>DriveObject\<close>; the size is a JavaScript number, \<open>None\<close> standing for \<open>NaN\<close>.\<close>

record drive_object =
  obj_key :: string
  obj_name :: string
  obj_size :: "int option"
  obj_lastModified :: string
  obj_isDirectory :: bool

record object_response =
  or_content_type :: "string option"
  or_content_length :: "string option"
  or_body :: "nat list"

text \<open>
  Response bodies. The XML and HTML renderings are kept symbolic: the constructor records what
  is rendered (\<open>generatePropfindResponse(objects, path, baseUrl)\<close>, the list of storages under
  the synthetic root, the HTML index of a directory).
\<close>

datatype body =
    NoBody
  | Text string
  | Multistatus "drive_object list" string string
  | StoragesMultistatus "(int \<times> string) list" string
  | DirectoryIndex string "drive_object list"
  | Bytes "nat list"

record response =
  status :: nat
  resp_body :: body
  resp_headers :: "(string \<times> string) list"

subsection \<open>Basic authentication\<close>

text \<open>\<open>a || b\<close> where both sides may be \<open>undefined\<close>.\<close>

definition js_or :: "string option \<Rightarrow> string option \<Rightarrow> string option" where
  "js_or a b = (if truthy a then a else b)"

definition webdavUsername :: "env \<Rightarrow> string" where
  "webdavUsername e = or_default (js_or (WEBDAV_USERNAME e) (ADMIN_USERNAME e)) ''admin''"

definition webdavPassword :: "env \<Rightarrow> string" where
  "webdavPassword e = or_default (js_or (WEBDAV_PASSWORD e) (ADMIN_PASSWORD e)) ''changeme''"

text \<open>
  \<open>const [username, password] = atob(authHeader.slice(6)).split(":")\<close>: the first two
  colon-separated fields of the decoded credentials; \<open>password\<close> is \<open>undefined\<close> when there is
  no colon. A throwing \<open>atob\<close> is caught by the handler's \<open>catch\<close>.
\<close>

definition basic_credentials :: "string \<Rightarrow> (string option \<times> string option) option" where
  "basic_credentials authHeader =
     (case atob (drop 6 authHeader) of
        None \<Rightarrow> None
      | Some credentials \<Rightarrow>
          (let fields = split_on CHR '':'' credentials
           in Some (at_index fields 0, at_index fields 1)))"

definition validateWebdavAuth :: "string option \<Rightarrow> env \<Rightarrow> bool" where
  "validateWebdavAuth authHeader e =
     (case authHeader of
        None \<Rightarrow> False
      | Some h \<Rightarrow>
          if h = [] \<or> \<not> prefix ''Basic '' h then False
          else (case basic_credentials h of
                  None \<Rightarrow> False
                | Some (username, password) \<Rightarrow>
                    username = Some (webdavUsername e) \<and> password = Some (webdavPassword e)))"

definition createUnauthorizedResponse :: response where
  "createUnauthorizedResponse =
     \<lparr> status = 401, resp_body = Text ''Unauthorized'',
       resp_headers = [(''WWW-Authenticate'', ''Basic realm=\"CList WebDAV\"''),
                       (''Content-Type'', ''text/plain'')] \<rparr>"

subsection \<open>Adapters, the config store and the effects of a request\<close>

text \<open>
  What \<open>getStateUpdates\<close> returns when it is not \<open>null\<close>: the config and the saving map, each
  present only when the adapter flagged it as changed. \<open>'k\<close> and \<open>'s\<close> are the types of the
  config and of the saving map (objects, hence truthy).
\<close>

record ('k, 's) state_updates =
  upd_config :: "'k option"
  upd_saving :: "'s option"

text \<open>
  The four drive adapters under src (Google Drive, OneDrive, Aliyun, Baidu) share the same
  state fields and the same \<open>getStateUpdates\<close>.
\<close>

record ('k, 's) drive_state =
  ds_config :: 'k
  ds_saving :: 's
  savingChanged :: bool
  configChanged :: bool

definition drive_getStateUpdates :: "('k, 's) drive_state \<Rightarrow> ('k, 's) state_updates option" where
  "drive_getStateUpdates c =
     (if \<not> savingChanged c \<and> \<not> configChanged c then None
      else Some \<lparr> upd_config = (if configChanged c then Some (ds_config c) else None),
                  upd_saving = (if savingChanged c then Some (ds_saving c) else None) \<rparr>)"

datatype adapter_op =
    ListObjects string
  | GetObject string
  | PutObject string "nat list" string
  | DeleteObject string
  | CreateFolder string
  | CopyObject string string
  | MoveObject string string

text \<open>
  Everything a handler does besides computing its response, in order: calls on the config
  store, adapter invocations (with a flag that is \<open>True\<close> when the invocation threw), reads
  of \<open>getStateUpdates\<close> and \<open>console.error\<close> lines.
\<close>

datatype ('k, 's) effect =
    InitDatabase
  | GetAllStorages
  | GetStorageById "int option"
  | AdapterCall adapter_op bool
  | GetStateUpdates
  | UpdateStorage "int option" "('k, 's) state_updates"
  | ConsoleError string

text \<open>
  The collaborators of the bridge whose code is not part of it, as parameters: the config
  store (\<open>getStorageById\<close>, \<open>getAllStorages\<close>, \<open>updateStorage\<close>, the last one returning
  \<open>Inl\<close> when it throws), \<open>createClient\<close> composed with the adapter classes, one function
  per adapter method used by the bridge (taking the client's state and returning the outcome
  together with the client's new state), \<open>getStateUpdates\<close> (\<open>None\<close> when the client has no
  such method, \<open>Some None\<close> when it returns \<open>null\<close>), whether the client has a
  \<open>moveObject\<close> method, and the \<open>URL\<close> parser (\<open>None\<close> when the constructor throws).
\<close>

record ('st, 'c, 'k, 's) deps =
  getStorageById :: "int option \<Rightarrow> 'st option"
  getAllStorages :: "(int \<times> string) list"
  updateStorage :: "int option \<Rightarrow> ('k, 's) state_updates \<Rightarrow> js_error + unit"
  createClient :: "'st \<Rightarrow> 'c"
  listObjects :: "'c \<Rightarrow> string \<Rightarrow> (js_error + drive_object list) \<times> 'c"
  getObject :: "'c \<Rightarrow> string \<Rightarrow> (js_error + object_response) \<times> 'c"
  unitOp :: "'c \<Rightarrow> adapter_op \<Rightarrow> (js_error + unit) \<times> 'c"
  getStateUpdates :: "'c \<Rightarrow> ('k, 's) state_updates option option"
  has_moveObject :: "'c \<Rightarrow> bool"
  url_pathname :: "string \<Rightarrow> string option"

subsection \<open>Propagating adapter state\<close>

definition persistClientState ::
  "('st, 'c, 'k, 's) deps \<Rightarrow> 'c \<Rightarrow> int option \<Rightarrow> (js_error + unit) \<times> ('k, 's) effect list" where
  "persistClientState d client storageId =
     (case getStateUpdates d client of
        None \<Rightarrow> (Inr (), [])
      | Some None \<Rightarrow> (Inr (), [GetStateUpdates])
      | Some (Some updates) \<Rightarrow>
          (let input = \<lparr> upd_config = upd_config updates, upd_saving = upd_saving updates \<rparr>
           in if upd_config input = None \<and> upd_saving input = None
              then (Inr (), [GetStateUpdates])
              else (updateStorage d storageId input,
                    [GetStateUpdates, UpdateStorage storageId input])))"

text \<open>
  \<open>withClientState\<close>: \<open>try { return await action() } finally { try { await
  persistClientState(...) } catch (error) { console.error(...) } }\<close>. The action is a function
  of the client's state returning its outcome, the new state and its effects.
\<close>

definition withClientState ::
  "('st, 'c, 'k, 's) deps \<Rightarrow> 'c \<Rightarrow> int option
     \<Rightarrow> ('c \<Rightarrow> (js_error + 'a) \<times> 'c \<times> ('k, 's) effect list)
     \<Rightarrow> (js_error + 'a) \<times> 'c \<times> ('k, 's) effect list" where
  "withClientState d client storageId action =
     (case action client of
        (outcome, client', effs) \<Rightarrow>
          (case persistClientState d client' storageId of
             (Inr _, peffs) \<Rightarrow> (outcome, client', effs @ peffs)
           | (Inl _, peffs) \<Rightarrow>
               (outcome, client',
                effs @ peffs @ [ConsoleError ''Failed to persist storage state:''])))"

text \<open>The thunks the handlers pass to \<open>withClientState\<close>.\<close>

definition call_listObjects ::
  "('st, 'c, 'k, 's) deps \<Rightarrow> string \<Rightarrow> 'c \<Rightarrow> (js_error + drive_object list) \<times> 'c \<times> ('k, 's) effect list" where
  "call_listObjects d path client =
     (case listObjects d client path of (r, c') \<Rightarrow> (r, c', [AdapterCall (ListObjects path) (isl r)]))"

definition call_getObject ::
  "('st, 'c, 'k, 's) deps \<Rightarrow> string \<Rightarrow> 'c \<Rightarrow> (js_error + object_response) \<times> 'c \<times> ('k, 's) effect list" where
  "call_getObject d path client =
     (case getObject d client path of (r, c') \<Rightarrow> (r, c', [AdapterCall (GetObject path) (isl r)]))"

definition call_unitOp ::
  "('st, 'c, 'k, 's) deps \<Rightarrow> adapter_op \<Rightarrow> 'c \<Rightarrow> (js_error + unit) \<times> 'c \<times> ('k, 's) effect list" where
  "call_unitOp d op client =
     (case unitOp d client op of (r, c') \<Rightarrow> (r, c', [AdapterCall op (isl r)]))"

subsection \<open>Rendering helpers\<close>

text \<open>Decimal rendering of a number in a template string; \<open>NaN\<close> renders as \<open>NaN\<close>.\<close>

fun nat_digits :: "nat \<Rightarrow> string" where
  "nat_digits n =
     (if n < 10 then [char_of (48 + n)]
      else nat_digits (n div 10) @ [char_of (48 + n mod 10)])"

definition number_string :: "int option \<Rightarrow> string" where
  "number_string v =
     (case v of
        None \<Rightarrow> ''NaN''
      | Some i \<Rightarrow> if i < 0 then CHR ''-'' # nat_digits (nat (- i)) else nat_digits (nat i))"

text \<open>\<open>s.replace(pat, "")\<close> with a non-empty string pattern: the first occurrence is removed.\<close>

fun remove_first :: "string \<Rightarrow> string \<Rightarrow> string" where
  "remove_first pat [] = []"
| "remove_first pat (c # cs) =
     (if prefix pat (c # cs) then drop (length pat) (c # cs) else c # remove_first pat cs)"

definition toLowerCase_char :: "char \<Rightarrow> char" where
  "toLowerCase_char c =
     (let n = (of_char c :: nat) in if 65 \<le> n \<and> n \<le> 90 then char_of (n + 32) else c)"

text \<open>
  \<open>getContentType\<close>: the lower-cased text after the last dot, looked up in the extension
  table \<open>mimeTypes\<close>, an object literal. A lookup in such an object also finds the
  properties it inherits; of their names only \<open>constructor\<close> and \<open>__proto__\<close> are unchanged
  by lower-casing. Their values are a function and an object, both truthy, so they are
  what \<open>getContentType\<close> returns, and both uses of the result (a template string and a
  header value) convert it to a string: \<open>inherited\<close> lists these two strings.
\<close>

definition mimeTypes :: "(string \<times> string) list" where
  "mimeTypes =
     [(''html'', ''text/html''), (''htm'', ''text/html''), (''css'', ''text/css''),
      (''js'', ''application/javascript''), (''json'', ''application/json''),
      (''xml'', ''application/xml''), (''txt'', ''text/plain''), (''md'', ''text/markdown''),
      (''png'', ''image/png''), (''jpg'', ''image/jpeg''), (''jpeg'', ''image/jpeg''),
      (''gif'', ''image/gif''), (''svg'', ''image/svg+xml''), (''webp'', ''image/webp''),
      (''ico'', ''image/x-icon''), (''pdf'', ''application/pdf''), (''zip'', ''application/zip''),
      (''tar'', ''application/x-tar''), (''gz'', ''application/gzip''), (''mp3'', ''audio/mpeg''),
      (''mp4'', ''video/mp4''), (''webm'', ''video/webm''), (''avi'', ''video/x-msvideo''),
      (''mov'', ''video/quicktime'')]"

definition inherited :: "(string \<times> string) list" where
  "inherited =
     [(''constructor'', ''function Object() { [native code] }''),
      (''__proto__'', ''[object Object]'')]"

definition getContentType :: "string \<Rightarrow> string" where
  "getContentType filename =
     (let ext = map toLowerCase_char (last (split_on CHR ''.'' filename))
      in or_default (map_of (mimeTypes @ inherited) ext) ''application/octet-stream'')"

definition plain :: "nat \<Rightarrow> string \<Rightarrow> response" where
  "plain code text = \<lparr> status = code, resp_body = Text text, resp_headers = [] \<rparr>"

definition empty_response :: "nat \<Rightarrow> response" where
  "empty_response code = \<lparr> status = code, resp_body = NoBody, resp_headers = [] \<rparr>"

definition xml_response :: "body \<Rightarrow> response" where
  "xml_response b =
     \<lparr> status = 207, resp_body = b,
       resp_headers = [(''Content-Type'', ''application/xml; charset=utf-8'')] \<rparr>"

definition options_response :: response where
  "options_response =
     \<lparr> status = 200, resp_body = NoBody,
       resp_headers =
         [(''DAV'', ''1, 2''),
          (''Allow'', ''OPTIONS, GET, HEAD, PUT, DELETE, PROPFIND, MKCOL, COPY, MOVE''),
          (''MS-Author-Via'', ''DAV'')] \<rparr>"

definition object_headers :: "string \<Rightarrow> object_response \<Rightarrow> (string \<times> string) list" where
  "object_headers path r =
     (''Content-Type'',
        (if truthy (or_content_type r) then or_default (or_content_type r) []
         else getContentType path))
     # (if truthy (or_content_length r)
        then [(''Content-Length'', or_default (or_content_length r) [])] else [])"

subsection \<open>The loader: OPTIONS, PROPFIND, GET and HEAD\<close>

definition propfind_method ::
  "('st, 'c, 'k, 's) deps \<Rightarrow> 'c \<Rightarrow> int option \<Rightarrow> string \<Rightarrow> string
     \<Rightarrow> response \<times> ('k, 's) effect list" where
  "propfind_method d client storageId path baseUrl =
     (case withClientState d client storageId (call_listObjects d path) of
        (Inr objs, _, effs) \<Rightarrow> (xml_response (Multistatus objs path baseUrl), effs)
      | (Inl _, _, effs) \<Rightarrow>
          (plain 500 ''Internal Server Error'', effs @ [ConsoleError ''PROPFIND error:'']))"

definition get_method ::
  "('st, 'c, 'k, 's) deps \<Rightarrow> 'c \<Rightarrow> int option \<Rightarrow> string \<Rightarrow> string
     \<Rightarrow> response \<times> ('k, 's) effect list" where
  "get_method d client storageId method path =
     (if suffix ''/'' path \<or> path = [] then
        (case withClientState d client storageId (call_listObjects d path) of
           (Inr objs, _, effs) \<Rightarrow>
             (\<lparr> status = 200, resp_body = DirectoryIndex path objs,
                resp_headers = [(''Content-Type'', ''text/html; charset=utf-8'')] \<rparr>,
              effs)
         | (Inl _, _, effs) \<Rightarrow> (plain 404 ''Not Found'', effs @ [ConsoleError ''GET error:'']))
      else
        (case withClientState d client storageId (call_getObject d path) of
           (Inr r, _, effs) \<Rightarrow>
             (\<lparr> status = 200,
                resp_body = (if method = ''HEAD'' then NoBody else Bytes (or_body r)),
                resp_headers = object_headers path r \<rparr>,
              effs)
         | (Inl _, _, effs) \<Rightarrow> (plain 404 ''Not Found'', effs @ [ConsoleError ''GET error:''])))"

text \<open>The method blocks of the loader that follow \<open>createClient\<close>.\<close>

definition loader_methods ::
  "('st, 'c, 'k, 's) deps \<Rightarrow> 'c \<Rightarrow> int option \<Rightarrow> string \<Rightarrow> string
     \<Rightarrow> response \<times> ('k, 's) effect list" where
  "loader_methods d client storageId method path =
     (if method = ''PROPFIND'' then
        propfind_method d client storageId path (''/dav/'' @ number_string storageId)
      else if method = ''GET'' \<or> method = ''HEAD'' then
        get_method d client storageId method path
      else (plain 405 ''Method not allowed'', []))"

definition loader ::
  "('st, 'c, 'k, 's) deps \<Rightarrow> env \<Rightarrow> request \<Rightarrow> response \<times> ('k, 's) effect list" where
  "loader d e rq =
     (let method = toUpperCase (req_method rq) in
      if method = ''OPTIONS'' then (options_response, [])
      else if WEBDAV_ENABLED e \<noteq> Some ''true'' then (plain 403 ''WebDAV is disabled'', [])
      else if \<not> validateWebdavAuth (req_authorization rq) e then (createUnauthorizedResponse, [])
      else
        (let storageId = parseInt10 (or_default (param_storageId rq) ''0'');
             path = or_default (param_splat rq) []
         in if storageId = Some 0 then
              (if method = ''PROPFIND'' then
                 (xml_response
                    (StoragesMultistatus (getAllStorages d)
                       (if suffix ''/'' (req_pathname rq) then butlast (req_pathname rq)
                        else req_pathname rq)),
                  [InitDatabase, GetAllStorages])
               else (plain 405 ''Method not allowed'', [InitDatabase]))
            else
              (case getStorageById d storageId of
                 None \<Rightarrow> (plain 404 ''Storage not found'', [InitDatabase, GetStorageById storageId])
               | Some storage \<Rightarrow>
                   (case loader_methods d (createClient d storage) storageId method path of
                      (resp, effs) \<Rightarrow> (resp, [InitDatabase, GetStorageById storageId] @ effs)))))"

subsection \<open>The action: PUT, DELETE, MKCOL, COPY and MOVE\<close>

text \<open>
  \<open>COPY\<close> and \<open>MOVE\<close> read the \<open>Destination\<close> header, parse it as a URL (a throwing parser is
  caught by the method's \<open>catch\<close>) and remove the first \<open>/dav/{storageId}/\<close> from its path name.
\<close>

definition destination_path :: "('st, 'c, 'k, 's) deps \<Rightarrow> int option \<Rightarrow> string \<Rightarrow> string option" where
  "destination_path d storageId destinationHeader =
     (case url_pathname d destinationHeader of
        None \<Rightarrow> None
      | Some pathname \<Rightarrow>
          Some (remove_first (''/dav/'' @ number_string storageId @ ''/'') pathname))"

definition unit_method ::
  "('st, 'c, 'k, 's) deps \<Rightarrow> 'c \<Rightarrow> int option \<Rightarrow> adapter_op \<Rightarrow> nat \<Rightarrow> string \<Rightarrow> string
     \<Rightarrow> response \<times> ('k, 's) effect list" where
  "unit_method d client storageId op ok_status fail_text log_text =
     (case withClientState d client storageId (call_unitOp d op) of
        (Inr _, _, effs) \<Rightarrow> (empty_response ok_status, effs)
      | (Inl _, _, effs) \<Rightarrow> (plain 500 fail_text, effs @ [ConsoleError log_text]))"

definition move_method ::
  "('st, 'c, 'k, 's) deps \<Rightarrow> 'c \<Rightarrow> int option \<Rightarrow> string \<Rightarrow> string \<Rightarrow> response \<times> ('k, 's) effect list" where
  "move_method d client storageId path destPath =
     (if has_moveObject d client then
        unit_method d client storageId (MoveObject path destPath) 201
          ''Failed to move'' ''MOVE error:''
      else
        (case withClientState d client storageId (call_unitOp d (CopyObject path destPath)) of
           (Inl _, _, effs) \<Rightarrow> (plain 500 ''Failed to move'', effs @ [ConsoleError ''MOVE error:''])
         | (Inr _, client', effs) \<Rightarrow>
             (case withClientState d client' storageId (call_unitOp d (DeleteObject path)) of
                (Inl _, _, effs') \<Rightarrow>
                  (plain 500 ''Failed to move'', effs @ effs' @ [ConsoleError ''MOVE error:''])
              | (Inr _, _, effs') \<Rightarrow> (empty_response 201, effs @ effs'))))"

text \<open>The method blocks of the action that follow \<open>createClient\<close>.\<close>

definition action_methods ::
  "('st, 'c, 'k, 's) deps \<Rightarrow> 'c \<Rightarrow> int option \<Rightarrow> string \<Rightarrow> string \<Rightarrow> request
     \<Rightarrow> response \<times> ('k, 's) effect list" where
  "action_methods d client storageId method path rq =
     (if method = ''PUT'' then
        unit_method d client storageId
          (PutObject path (req_body rq)
             (or_default (req_content_type rq) ''application/octet-stream''))
          201 ''Failed to upload file'' ''PUT error:''
      else if method = ''DELETE'' then
        unit_method d client storageId (DeleteObject path)
          204 ''Failed to delete'' ''DELETE error:''
      else if method = ''MKCOL'' then
        unit_method d client storageId (CreateFolder path)
          201 ''Failed to create directory'' ''MKCOL error:''
      else if method = ''COPY'' then
        (if \<not> truthy (req_destination rq) then (plain 400 ''Destination header required'', [])
         else
           (case destination_path d storageId (or_default (req_destination rq) []) of
              None \<Rightarrow> (plain 500 ''Failed to copy'', [ConsoleError ''COPY error:''])
            | Some destPath \<Rightarrow>
                unit_method d client storageId (CopyObject path destPath)
                  201 ''Failed to copy'' ''COPY error:''))
      else if method = ''MOVE'' then
        (if \<not> truthy (req_destination rq) then (plain 400 ''Destination header required'', [])
         else
           (case destination_path d storageId (or_default (req_destination rq) []) of
              None \<Rightarrow> (plain 500 ''Failed to move'', [ConsoleError ''MOVE error:''])
            | Some destPath \<Rightarrow> move_method d client storageId path destPath))
      else (plain 405 ''Method not allowed'', []))"

definition action ::
  "('st, 'c, 'k, 's) deps \<Rightarrow> env \<Rightarrow> request \<Rightarrow> response \<times> ('k, 's) effect list" where
  "action d e rq =
     (let method = toUpperCase (req_method rq) in
      if WEBDAV_ENABLED e \<noteq> Some ''true'' then (plain 403 ''WebDAV is disabled'', [])
      else if \<not> validateWebdavAuth (req_authorization rq) e then (createUnauthorizedResponse, [])
      else
        (let storageId = parseInt10 (or_default (param_storageId rq) ''0'');
             path = or_default (param_splat rq) []
         in if storageId = Some 0 then (plain 403 ''Cannot modify root'', [InitDatabase])
            else
              (case getStorageById d storageId of
                 None \<Rightarrow> (plain 404 ''Storage not found'', [InitDatabase, GetStorageById storageId])
               | Some storage \<Rightarrow>
                   (case action_methods d (createClient d storage) storageId method path rq of
                      (resp, effs) \<Rightarrow> (resp, [InitDatabase, GetStorageById storageId] @ effs)))))"

subsection \<open>Observations on the effects of a request\<close>

primrec adapter_calls :: "('k, 's) effect list \<Rightarrow> (adapter_op \<times> bool) list" where
  "adapter_calls [] = []"
| "adapter_calls (x # xs) =
     (case x of AdapterCall op threw \<Rightarrow> (op, threw) # adapter_calls xs | _ \<Rightarrow> adapter_calls xs)"

definition is_call :: "('k, 's) effect \<Rightarrow> bool" where
  "is_call x = (case x of AdapterCall _ _ \<Rightarrow> True | _ \<Rightarrow> False)"

text \<open>Every adapter invocation in the list is directly followed by a read of \<open>getStateUpdates\<close>.\<close>

fun reads_follow_calls :: "('k, 's) effect list \<Rightarrow> bool" where
  "reads_follow_calls [] = True"
| "reads_follow_calls [x] = (\<not> is_call x)"
| "reads_follow_calls (x # y # r) =
     ((if is_call x then y = GetStateUpdates else True) \<and> reads_follow_calls (y # r))"

text \<open>The fixed bodies of the 500 responses of the action.\<close>

definition failure_texts :: "string list" where
  "failure_texts =
     [''Failed to upload file'', ''Failed to delete'', ''Failed to create directory'',
      ''Failed to copy'', ''Failed to move'']"

subsection \<open>A concrete deployment, used to evaluate the handlers\<close>

text \<open>
  No credential variable is configured and WebDAV is enabled. Storage 3 is a drive adapter
  whose state is a \<open>drive_state\<close> over strings; every adapter method throws after a token
  refresh that changed the saving map, and every write to the config store fails.
\<close>

definition demo_env :: env where
  "demo_env =
     \<lparr> WEBDAV_ENABLED = Some ''true'', WEBDAV_USERNAME = None, WEBDAV_PASSWORD = None,
       ADMIN_USERNAME = None, ADMIN_PASSWORD = None \<rparr>"

definition disabled_env :: env where
  "disabled_env = demo_env \<lparr> WEBDAV_ENABLED := None \<rparr>"

definition refreshed :: "(string, string) drive_state \<Rightarrow> (string, string) drive_state" where
  "refreshed c = c \<lparr> ds_saving := ''access_token=new'', savingChanged := True \<rparr>"

definition failing_deps :: "(unit, (string, string) drive_state, string, string) deps" where
  "failing_deps =
     \<lparr> getStorageById = (\<lambda>i. if i = Some 3 then Some () else None),
       getAllStorages = [(3, ''drive'')],
       updateStorage = (\<lambda>_ _. Inl (Error ''D1_ERROR'')),
       createClient =
         (\<lambda>_. \<lparr> ds_config = ''refresh_token=old'', ds_saving = ''access_token=old'',
                savingChanged = False, configChanged = False \<rparr>),
       listObjects = (\<lambda>c _. (Inl (Error ''listing failed''), refreshed c)),
       getObject = (\<lambda>c _. (Inl (Error ''file not found''), refreshed c)),
       unitOp = (\<lambda>c _. (Inl (Error ''request failed''), refreshed c)),
       getStateUpdates = (\<lambda>c. Some (drive_getStateUpdates c)),
       has_moveObject = (\<lambda>_. True),
       url_pathname = (\<lambda>_. None) \<rparr>"

definition demo_request :: "string \<Rightarrow> string option \<Rightarrow> request" where
  "demo_request m auth =
     \<lparr> req_method = m, req_authorization = auth, req_destination = None,
       req_content_type = None, param_storageId = Some ''3'', param_splat = Some ''a.txt'',
       req_pathname = ''/dav/3/a.txt'', req_body = [] \<rparr>"

definition admin_changeme :: "string option" where
  "admin_changeme = Some ''Basic YWRtaW46Y2hhbmdlbWU=''"

section \<open>The drive adapters\<close>

subsection \<open>Adapter state, provider replies and runs\<close>

text \<open>
  The keys of the \<open>config\<close> and \<open>saving\<close> maps that the modelled methods read or write.
  The code only tests these values for truthiness or uses them with a falsy default, so a
  missing key is represented by the falsy value of the field's type (\<open>''''\<close>, \<open>0\<close>,
  \<open>False\<close>). \<open>custom_upload_part_size\<close> is \<open>Number(config.custom_upload_part_size || 0)\<close>,
  a number of MiB, with \<open>NaN\<close> represented by 0 (the only use is the test \<open>custom > 0\<close>,
  false for both). The field holds whole numbers only: for a fractional value the slice
  bounds of the upload are doubles that the source rounds, which is outside this model;
  \<open>vip_type\<close> is \<open>saving.vip_type || 0\<close> when that is a number and 0 otherwise (the only
  uses are \<open>=== 2\<close> and \<open>=== 1\<close>).
\<close>

record drive_config =
  client_id :: string
  client_secret :: string
  refresh_token :: string
  use_online_api :: bool
  api_address :: string
  root_path :: string
  custom_upload_part_size :: int

record drive_saving =
  access_token :: string
  saved_refresh_token :: string
  expires_at :: int
  drive_id :: string
  vip_type :: int

type_synonym client = "(drive_config, drive_saving) drive_state"

definition markSavingChanged :: "client \<Rightarrow> client" where
  "markSavingChanged c = c \<lparr> savingChanged := True \<rparr>"

definition markConfigChanged :: "client \<Rightarrow> client" where
  "markConfigChanged c = c \<lparr> configChanged := True \<rparr>"

text \<open>
  Replies of the network, scripted: every \<open>fetch\<close> takes the next reply of its endpoint.
  A reply is a rejected \<open>fetch\<close> or a response with its status and body; a body of the token
  endpoint is either not JSON or the fields the code reads from the parsed object.
\<close>

record token_data =
  td_access_token :: string
  td_refresh_token :: string
  td_expires_in :: int
  td_error :: string
  td_error_description :: string
  td_text :: string
  td_code :: string
  td_message :: string

datatype token_reply =
    TokenFetchRejected
  | TokenNotJson nat string
  | TokenJson nat token_data

datatype 'b api_reply = FetchRejected | Response nat 'b

definition response_ok :: "nat \<Rightarrow> bool" where
  "response_ok st = (200 \<le> st \<and> st \<le> 299)"

text \<open>
  What a call does on the network, in order: calls of \<open>refreshToken\<close>, fetches of the
  provider API, each with the arguments of \<open>request\<close> (of type \<open>'q\<close>) and the access token it
  carries, and (Baidu only) uploads of one slice to the temp-file endpoint, each with its
  \<open>partseq\<close>, its bytes, the upload id and the access token.
\<close>

datatype 'q net_event =
    RefreshToken
  | ApiFetch 'q string
  | SliceUpload nat "nat list" string string

text \<open>
  The result of running a method against scripted replies: its outcome, the adapter's new
  state, the replies not consumed and the events. A method applied to a script that ends
  before the method does returns \<open>None\<close>: it is still waiting for a reply.
\<close>

record ('a, 'q, 'b) run =
  outcome :: "js_error + 'a"
  client_after :: client
  tokens_left :: "token_reply list"
  replies_left :: "'b api_reply list"
  trace :: "'q net_event list"

type_synonym refresh_result = "((js_error + unit) \<times> client \<times> token_reply list) option"

text \<open>\<open>a || b\<close> on strings.\<close>

definition str_or :: "string \<Rightarrow> string \<Rightarrow> string" where
  "str_or a b = (if a = [] then b else a)"

text \<open>\<open>Date.now() + (data.expires_in ? data.expires_in * 1000 : 3600 * 1000)\<close>.\<close>

definition new_expiry :: "int \<Rightarrow> token_data \<Rightarrow> int" where
  "new_expiry now d = now + (if td_expires_in d \<noteq> 0 then td_expires_in d * 1000 else 3600 * 1000)"

text \<open>
  \<open>isTokenExpired\<close> of the Google Drive, OneDrive and Aliyun adapters; \<open>now\<close> is the reading
  of \<open>Date.now()\<close>, taken to be the same throughout one adapter call.
\<close>

definition isTokenExpired :: "int \<Rightarrow> client \<Rightarrow> bool" where
  "isTokenExpired now c =
     (if expires_at (ds_saving c) = 0 then True
      else now \<ge> expires_at (ds_saving c) - 5 * 60 * 1000)"

subsection \<open>Google Drive: token refresh and request\<close>

text \<open>
  The state after a successful exchange in \<open>refreshToken\<close> (the same statements in the
  Google Drive adapter and in the local refresh of the OneDrive adapter): the access token is
  stored; a rotated refresh token, when present, is stored in both maps and marks the config
  as changed; the expiry is set and the saving map is marked as changed.
\<close>

definition store_access_token :: "int \<Rightarrow> token_data \<Rightarrow> client \<Rightarrow> client" where
  "store_access_token now d c =
     (let c1 = c \<lparr> ds_saving := (ds_saving c) \<lparr> access_token := td_access_token d \<rparr> \<rparr>;
          c2 = (if td_refresh_token d \<noteq> [] then
                  markConfigChanged
                    (c1 \<lparr> ds_saving :=
                            (ds_saving c1) \<lparr> saved_refresh_token := td_refresh_token d \<rparr>,
                          ds_config :=
                            (ds_config c1) \<lparr> refresh_token := td_refresh_token d \<rparr> \<rparr>)
                else c1);
          c3 = c2 \<lparr> ds_saving := (ds_saving c2) \<lparr> expires_at := new_expiry now d \<rparr> \<rparr>
      in markSavingChanged c3)"

definition gdrive_refreshToken :: "int \<Rightarrow> client \<Rightarrow> token_reply list \<Rightarrow> refresh_result" where
  "gdrive_refreshToken now c toks =
     (if client_id (ds_config c) = [] \<or> client_secret (ds_config c) = [] then
        Some (Inl (Error ''Missing client_id or client_secret''), c, toks)
      else if refresh_token (ds_config c) = [] then
        Some (Inl (Error ''Missing refresh_token''), c, toks)
      else
        (case toks of
           [] \<Rightarrow> None
         | TokenFetchRejected # rest \<Rightarrow> Some (Inl (TypeError ''fetch failed''), c, rest)
         | TokenNotJson st txt # rest \<Rightarrow> Some (Inl SyntaxError, c, rest)
         | TokenJson st d # rest \<Rightarrow>
             if \<not> response_ok st \<or> td_error d \<noteq> [] then
               Some (Inl (Error (str_or (td_error_description d)
                                   (str_or (td_error d) ''Google refresh failed''))), c, rest)
             else if td_access_token d = [] then
               Some (Inl (Error ''Google refresh returned empty token''), c, rest)
             else
               Some (Inr (), store_access_token now d c, rest)))"

definition gdrive_ensureToken ::
  "int \<Rightarrow> client \<Rightarrow> token_reply list \<Rightarrow> ((js_error + unit) \<times> client \<times> token_reply list \<times> 'q net_event list) option" where
  "gdrive_ensureToken now c toks =
     (if access_token (ds_saving c) = [] \<or> isTokenExpired now c then
        (case gdrive_refreshToken now c toks of
           None \<Rightarrow> None
         | Some (r, c', toks') \<Rightarrow> Some (r, c', toks', [RefreshToken]))
      else Some (Inr (), c, toks, []))"

text \<open>
  \<open>request(url, method, body, headers)\<close>, with \<open>q\<close> standing for its four arguments. A
  response with status 401 makes the method call \<open>refreshToken\<close> and then itself again with
  the same arguments; the source has no counter of such calls.
\<close>

fun gdrive_request ::
  "int \<Rightarrow> 'q \<Rightarrow> client \<Rightarrow> token_reply list \<Rightarrow> 'b api_reply list \<Rightarrow> (nat \<times> 'b, 'q, 'b) run option" where
  "gdrive_request now q c toks replies =
     (case gdrive_ensureToken now c toks of
        None \<Rightarrow> None
      | Some (Inl e, c1, toks1, ev1) \<Rightarrow>
          Some \<lparr> outcome = Inl e, client_after = c1, tokens_left = toks1,
                 replies_left = replies, trace = ev1 \<rparr>
      | Some (Inr _, c1, toks1, ev1) \<Rightarrow>
          (case replies of
             [] \<Rightarrow> None
           | FetchRejected # rest \<Rightarrow>
               Some \<lparr> outcome = Inl (TypeError ''fetch failed''), client_after = c1,
                      tokens_left = toks1, replies_left = rest,
                      trace = ev1 @ [ApiFetch q (access_token (ds_saving c1))] \<rparr>
           | Response st b # rest \<Rightarrow>
               if st = 401 then
                 (case gdrive_refreshToken now c1 toks1 of
                    None \<Rightarrow> None
                  | Some (Inl e, c2, toks2) \<Rightarrow>
                      Some \<lparr> outcome = Inl e, client_after = c2, tokens_left = toks2,
                             replies_left = rest,
                             trace = ev1 @ [ApiFetch q (access_token (ds_saving c1)), RefreshToken] \<rparr>
                  | Some (Inr _, c2, toks2) \<Rightarrow>
                      (case gdrive_request now q c2 toks2 rest of
                         None \<Rightarrow> None
                       | Some r \<Rightarrow>
                           Some (r \<lparr> trace :=
                                      ev1 @ [ApiFetch q (access_token (ds_saving c1)), RefreshToken]
                                        @ trace r \<rparr>)))
               else
                 Some \<lparr> outcome = Inr (st, b), client_after = c1, tokens_left = toks1,
                        replies_left = rest,
                        trace = ev1 @ [ApiFetch q (access_token (ds_saving c1))] \<rparr>))"

declare gdrive_request.simps [simp del]

subsection \<open>Baidu Yun: token refresh and request\<close>

text \<open>
  The refresh functions set both tokens and mark both maps as changed. Messages that
  interpolate the status or the body text are shortened to their fixed part; \<open>api_address\<close>
  is assumed to be a well-formed URL.
\<close>

definition store_tokens :: "token_data \<Rightarrow> client \<Rightarrow> client" where
  "store_tokens d c =
     markConfigChanged (markSavingChanged
       (c \<lparr> ds_saving := (ds_saving c) \<lparr> access_token := td_access_token d,
                                         saved_refresh_token := td_refresh_token d \<rparr>,
            ds_config := (ds_config c) \<lparr> refresh_token := td_refresh_token d \<rparr> \<rparr>))"

definition baidu_refreshTokenOnline :: "client \<Rightarrow> token_reply list \<Rightarrow> refresh_result" where
  "baidu_refreshTokenOnline c toks =
     (case toks of
        [] \<Rightarrow> None
      | TokenFetchRejected # rest \<Rightarrow> Some (Inl (TypeError ''fetch failed''), c, rest)
      | TokenNotJson st txt # rest \<Rightarrow>
          if \<not> response_ok st then Some (Inl (Error ''Baidu online refresh failed''), c, rest)
          else Some (Inl SyntaxError, c, rest)
      | TokenJson st d # rest \<Rightarrow>
          if \<not> response_ok st then Some (Inl (Error ''Baidu online refresh failed''), c, rest)
          else if td_access_token d = [] \<or> td_refresh_token d = [] then
            Some (Inl (Error (str_or (td_text d) ''Baidu online refresh returned empty token'')),
                  c, rest)
          else Some (Inr (), store_tokens d c, rest))"

definition baidu_refreshTokenLocal :: "client \<Rightarrow> token_reply list \<Rightarrow> refresh_result" where
  "baidu_refreshTokenLocal c toks =
     (if client_id (ds_config c) = [] \<or> client_secret (ds_config c) = [] then
        Some (Inl (Error ''Missing client_id or client_secret''), c, toks)
      else
        (case toks of
           [] \<Rightarrow> None
         | TokenFetchRejected # rest \<Rightarrow> Some (Inl (TypeError ''fetch failed''), c, rest)
         | TokenNotJson st txt # rest \<Rightarrow> Some (Inl SyntaxError, c, rest)
         | TokenJson st d # rest \<Rightarrow>
             if \<not> response_ok st \<or> td_error d \<noteq> [] then
               Some (Inl (Error (str_or (td_error_description d)
                                   (str_or (td_error d) ''Baidu refresh failed''))), c, rest)
             else if td_access_token d = [] \<or> td_refresh_token d = [] then
               Some (Inl (Error ''Baidu refresh returned empty token''), c, rest)
             else Some (Inr (), store_tokens d c, rest)))"

definition baidu_refreshToken :: "client \<Rightarrow> token_reply list \<Rightarrow> refresh_result" where
  "baidu_refreshToken c toks =
     (if use_online_api (ds_config c) \<and> api_address (ds_config c) \<noteq> []
      then baidu_refreshTokenOnline c toks
      else baidu_refreshTokenLocal c toks)"

definition baidu_ensureToken ::
  "client \<Rightarrow> token_reply list
     \<Rightarrow> ((js_error + unit) \<times> client \<times> token_reply list \<times> 'q net_event list) option" where
  "baidu_ensureToken c toks =
     (if access_token (ds_saving c) = [] then
        (case baidu_refreshToken c toks of
           None \<Rightarrow> None
         | Some (r, c', toks') \<Rightarrow> Some (r, c', toks', [RefreshToken]))
      else Some (Inr (), c, toks, []))"

text \<open>
  The body of a Baidu API response: text that \<open>JSON.parse\<close> rejects, or the fields of the
  parsed object that the adapter reads (\<open>errno\<close> and \<open>return_type\<close> may be missing; a missing
  \<open>uploadid\<close> is the empty string, a missing \<open>list\<close> the empty list).
\<close>

record baidu_file =
  fs_id :: int
  server_filename :: string
  bf_size :: int
  isdir :: int
  server_mtime :: int

record baidu_data =
  errno :: "int option"
  return_type :: "int option"
  uploadid :: string
  file_list :: "baidu_file list"

datatype baidu_body = NotJson string | Json baidu_data

text \<open>
  \<open>request(pathname, method, params, body)\<close>, with \<open>q\<close> standing for its four arguments. An
  \<open>errno\<close> of 111 or -6 makes the method call \<open>refreshToken\<close> and then itself again with the
  same arguments; the source has no counter of such calls.
\<close>

fun baidu_request ::
  "'q \<Rightarrow> client \<Rightarrow> token_reply list \<Rightarrow> baidu_body api_reply list
     \<Rightarrow> (baidu_data, 'q, baidu_body) run option" where
  "baidu_request q c toks replies =
     (case baidu_ensureToken c toks of
        None \<Rightarrow> None
      | Some (Inl e, c1, toks1, ev1) \<Rightarrow>
          Some \<lparr> outcome = Inl e, client_after = c1, tokens_left = toks1,
                 replies_left = replies, trace = ev1 \<rparr>
      | Some (Inr _, c1, toks1, ev1) \<Rightarrow>
          (case replies of
             [] \<Rightarrow> None
           | FetchRejected # rest \<Rightarrow>
               Some \<lparr> outcome = Inl (TypeError ''fetch failed''), client_after = c1,
                      tokens_left = toks1, replies_left = rest,
                      trace = ev1 @ [ApiFetch q (access_token (ds_saving c1))] \<rparr>
           | Response st (NotJson text) # rest \<Rightarrow>
               Some \<lparr> outcome = Inl (Error (if \<not> response_ok st then ''Baidu API error''
                                              else ''Baidu API parse failed'')),
                      client_after = c1, tokens_left = toks1, replies_left = rest,
                      trace = ev1 @ [ApiFetch q (access_token (ds_saving c1))] \<rparr>
           | Response st (Json d) # rest \<Rightarrow>
               if errno d \<noteq> None \<and> errno d \<noteq> Some 0 then
                 (if errno d = Some 111 \<or> errno d = Some (- 6) then
                    (case baidu_refreshToken c1 toks1 of
                       None \<Rightarrow> None
                     | Some (Inl e, c2, toks2) \<Rightarrow>
                         Some \<lparr> outcome = Inl e, client_after = c2, tokens_left = toks2,
                                replies_left = rest,
                                trace = ev1 @ [ApiFetch q (access_token (ds_saving c1)),
                                               RefreshToken] \<rparr>
                     | Some (Inr _, c2, toks2) \<Rightarrow>
                         (case baidu_request q c2 toks2 rest of
                            None \<Rightarrow> None
                          | Some r \<Rightarrow>
                              Some (r \<lparr> trace :=
                                         ev1 @ [ApiFetch q (access_token (ds_saving c1)),
                                                RefreshToken] @ trace r \<rparr>)))
                  else
                    Some \<lparr> outcome = Inl (Error (''Baidu API errno=''
                                                   @ number_string (errno d))),
                           client_after = c1, tokens_left = toks1, replies_left = rest,
                           trace = ev1 @ [ApiFetch q (access_token (ds_saving c1))] \<rparr>)
               else
                 Some \<lparr> outcome = Inr d, client_after = c1, tokens_left = toks1,
                        replies_left = rest,
                        trace = ev1 @ [ApiFetch q (access_token (ds_saving c1))] \<rparr>))"

declare baidu_request.simps [simp del]

subsection \<open>OneDrive: token refresh and request\<close>

definition store_tokens_expiry :: "int \<Rightarrow> token_data \<Rightarrow> client \<Rightarrow> client" where
  "store_tokens_expiry now d c =
     markConfigChanged (markSavingChanged
       (c \<lparr> ds_saving := (ds_saving c) \<lparr> access_token := td_access_token d,
                                         saved_refresh_token := td_refresh_token d,
                                         expires_at := new_expiry now d \<rparr>,
            ds_config := (ds_config c) \<lparr> refresh_token := td_refresh_token d \<rparr> \<rparr>))"







subsection \<open>Aliyun Drive: token refresh and request\<close>









subsection \<open>The outcome of a response that is not an auth-expiry signal\<close>

text \<open>
  What \<open>request\<close> returns or throws for a parsed Baidu body whose \<open>errno\<close> is neither 111
  nor -6, and for a OneDrive response whose status is not 401.
\<close>

definition baidu_result :: "baidu_data \<Rightarrow> js_error + baidu_data" where
  "baidu_result d =
     (if errno d = None \<or> errno d = Some 0 then Inr d
      else Inl (Error (''Baidu API errno='' @ number_string (errno d))))"


text \<open>The number of \<open>refreshToken\<close> calls in a trace.\<close>

definition refresh_count :: "'q net_event list \<Rightarrow> nat" where
  "refresh_count evs = length (filter (\<lambda>e. e = RefreshToken) evs)"

subsection \<open>A concrete adapter state and concrete replies\<close>

text \<open>
  An adapter with complete credentials, a cached access token \<open>t0\<close> that expires well after
  the time 0 of the call, and a resolved drive id; and a reply of the token endpoint that
  grants a given access token for an hour.
\<close>

definition cached_client :: client where
  "cached_client =
     \<lparr> ds_config = \<lparr> client_id = ''id'', client_secret = ''secret'', refresh_token = ''r0'',
                     use_online_api = False, api_address = [], root_path = ''/'',
                     custom_upload_part_size = 0 \<rparr>,
       ds_saving = \<lparr> access_token = ''t0'', saved_refresh_token = ''r0'',
                     expires_at = 3600000, drive_id = ''drive'', vip_type = 0 \<rparr>,
       savingChanged = False, configChanged = False \<rparr>"








subsection \<open>Baidu Yun: paths, slices and upload\<close>

definition baidu_resolvePath :: "client \<Rightarrow> string \<Rightarrow> string" where
  "baidu_resolvePath c path =
     (let joined = joinRootPath (str_or (root_path (ds_config c)) ''/'') path
      in if \<not> prefix ''/'' joined then ''/'' @ joined else joined)"

definition MiB :: int where
  "MiB = 1024 * 1024"

definition getSliceSize :: "client \<Rightarrow> nat \<Rightarrow> int" where
  "getSliceSize c fileSize =
     (let defaultSlice = 4 * 1024 * 1024;
          vipSlice = 16 * 1024 * 1024;
          svipSlice = 32 * 1024 * 1024;
          vipType = vip_type (ds_saving c);
          custom = custom_upload_part_size (ds_config c)
      in if custom > 0 then max defaultSlice (min (custom * 1024 * 1024) svipSlice)
         else if vipType = 2 then svipSlice
         else if vipType = 1 then vipSlice
         else defaultSlice)"

text \<open>\<open>data.slice(start, end)\<close> on the bytes of the body, for \<open>start \<le> end\<close>.\<close>

definition slice :: "'a list \<Rightarrow> nat \<Rightarrow> nat \<Rightarrow> 'a list" where
  "slice data start end = take (end - start) (drop start data)"

text \<open>
  The loop \<open>for (offset = 0; offset < fileSize; offset += sliceSize)\<close> that fills
  \<open>blockList\<close>; \<open>md5Hex\<close>, the digest function of the sources, is a parameter, so that what
  is proved holds whatever it computes. The slice
  size is positive in every call (\<open>getSliceSize\<close> returns at least 4 MiB); for a slice size
  of 0, where the source's loop would not advance, the function returns the empty list.
\<close>

function block_list_from :: "(nat list \<Rightarrow> string) \<Rightarrow> nat \<Rightarrow> nat list \<Rightarrow> nat \<Rightarrow> string list" where
  "block_list_from md5Hex sliceSize data offset =
     (if offset < length data \<and> 0 < sliceSize then
        md5Hex (slice data offset (min (offset + sliceSize) (length data)))
          # block_list_from md5Hex sliceSize data (offset + sliceSize)
      else [])"
  by pat_completeness auto
termination
  by (relation "measure (\<lambda>(m, s, data, offset). length data - offset)") auto

declare block_list_from.simps [simp del]

text \<open>
  The arguments of the calls of \<open>request\<close> made by the modelled methods:
  \<open>ListReq dir\<close> is \<open>GET /xpan/file?method=list&dir=...\<close>;
  \<open>PrecreateReq path size blockList contentMd5 sliceMd5\<close> is \<open>POST /xpan/file?method=precreate\<close>
  with the form fields \<open>path\<close>, \<open>size\<close>, \<open>isdir=0\<close>, \<open>autoinit=1\<close>, \<open>rtype=3\<close>,
  \<open>block_list=JSON.stringify(blockList)\<close>, \<open>content-md5\<close> and \<open>slice-md5\<close>;
  \<open>CreateFileReq path size uploadid blockList\<close> is \<open>POST /xpan/file?method=create\<close> with the
  form fields \<open>path\<close>, \<open>size\<close>, \<open>isdir=0\<close>, \<open>uploadid\<close>, \<open>block_list\<close> and \<open>rtype=3\<close>.
\<close>

datatype baidu_req =
    ListReq string
  | PrecreateReq string nat "string list" string string
  | CreateFileReq string nat string "string list"

text \<open>
  The reply to one slice upload: a rejected fetch, a body that is not JSON, or the \<open>errno\<close>
  and \<open>error_code\<close> of the parsed body (each possibly missing). The source throws when
  \<open>result.errno !== 0 && result.error_code !== 0\<close>.
\<close>

datatype slice_reply = SliceFetchRejected | SliceNotJson | SliceJson "int option" "int option"


text \<open>
  The bytes of slice \<open>partseq\<close>: \<open>data.slice(start, end)\<close> with
  \<open>start = partseq * sliceSize\<close> and \<open>end = Math.min(start + sliceSize, fileSize)\<close>.
\<close>

definition chunk_at :: "nat \<Rightarrow> nat list \<Rightarrow> nat \<Rightarrow> nat list" where
  "chunk_at sliceSize data partseq =
     (let start = partseq * sliceSize;
          end = min (start + sliceSize) (length data)
      in slice data start end)"

fun upload_slices ::
  "nat \<Rightarrow> nat list \<Rightarrow> string \<Rightarrow> string \<Rightarrow> nat list \<Rightarrow> slice_reply list
     \<Rightarrow> ((js_error + unit) \<times> 'q net_event list) option" where
  "upload_slices sliceSize data uid tok [] replies = Some (Inr (), [])"
| "upload_slices sliceSize data uid tok (partseq # later) [] = None"
| "upload_slices sliceSize data uid tok (partseq # later) (r # rest) =
     (let ev = SliceUpload partseq (chunk_at sliceSize data partseq) uid tok
      in case r of
           SliceFetchRejected \<Rightarrow> Some (Inl (TypeError ''fetch failed''), [ev])
         | SliceNotJson \<Rightarrow> Some (Inl SyntaxError, [ev])
         | SliceJson e code \<Rightarrow>
             if e \<noteq> Some 0 \<and> code \<noteq> Some 0 then
               Some (Inl (Error ''Baidu upload slice failed''), [ev])
             else
               (case upload_slices sliceSize data uid tok later rest of
                  None \<Rightarrow> None
                | Some (out, evs) \<Rightarrow> Some (out, ev # evs)))"

text \<open>
  \<open>putObject(key, body)\<close>; \<open>data\<close> is the bytes of the body (of its UTF-8 encoding when the
  body is a string). The loop over \<open>partseq\<close> runs through \<open>0, ..., blockList.length - 1\<close>.
\<close>

definition baidu_putObject ::
  "(nat list \<Rightarrow> string) \<Rightarrow> client \<Rightarrow> string \<Rightarrow> nat list
     \<Rightarrow> token_reply list \<Rightarrow> baidu_body api_reply list \<Rightarrow> slice_reply list
     \<Rightarrow> (unit, baidu_req, baidu_body) run option" where
  "baidu_putObject md5Hex c key data toks replies slice_replies =
     (let path = baidu_resolvePath c key;
          fileSize = length data;
          sliceSize = nat (getSliceSize c fileSize);
          blockList = block_list_from md5Hex sliceSize data 0;
          contentMd5 = md5Hex data;
          sliceMd5 = md5Hex (slice data 0 (min (256 * 1024) fileSize))
      in case baidu_request (PrecreateReq path fileSize blockList contentMd5 sliceMd5)
                c toks replies of
           None \<Rightarrow> None
         | Some r1 \<Rightarrow>
             (case outcome r1 of
                Inl e \<Rightarrow>
                  Some \<lparr> outcome = Inl e, client_after = client_after r1,
                         tokens_left = tokens_left r1, replies_left = replies_left r1,
                         trace = trace r1 \<rparr>
              | Inr precreate \<Rightarrow>
                  if return_type precreate = Some 2 then
                    Some \<lparr> outcome = Inr (), client_after = client_after r1,
                           tokens_left = tokens_left r1, replies_left = replies_left r1,
                           trace = trace r1 \<rparr>
                  else if uploadid precreate = [] then
                    Some \<lparr> outcome = Inl (Error ''Baidu upload id missing''),
                           client_after = client_after r1, tokens_left = tokens_left r1,
                           replies_left = replies_left r1, trace = trace r1 \<rparr>
                  else
                    (case upload_slices sliceSize data (uploadid precreate)
                            (access_token (ds_saving (client_after r1)))
                            [0..<length blockList] slice_replies of
                       None \<Rightarrow> None
                     | Some (Inl e, evs) \<Rightarrow>
                         Some \<lparr> outcome = Inl e, client_after = client_after r1,
                                tokens_left = tokens_left r1, replies_left = replies_left r1,
                                trace = trace r1 @ evs \<rparr>
                     | Some (Inr _, evs) \<Rightarrow>
                         (case baidu_request
                                 (CreateFileReq path fileSize (uploadid precreate) blockList)
                                 (client_after r1) (tokens_left r1) (replies_left r1) of
                            None \<Rightarrow> None
                          | Some r2 \<Rightarrow>
                              Some \<lparr> outcome = (case outcome r2 of Inl e \<Rightarrow> Inl e
                                                   | Inr _ \<Rightarrow> Inr ()),
                                     client_after = client_after r2,
                                     tokens_left = tokens_left r2,
                                     replies_left = replies_left r2,
                                     trace = trace r1 @ evs @ trace r2 \<rparr>))))"

subsection \<open>Baidu Yun: the multipart-upload methods\<close>

definition unsupported_multipart :: js_error where
  "unsupported_multipart = Error ''BaiduYun does not support multipart upload in this mode''"

text \<open>
  Each method takes the adapter's state and returns its outcome, the state afterwards and
  the network events it caused. \<open>options\<close> is the optional \<open>{size, chunkSize}\<close> argument.
\<close>

definition baidu_initiateMultipartUpload ::
  "client \<Rightarrow> string \<Rightarrow> string \<Rightarrow> (int option \<times> int option) option
     \<Rightarrow> (js_error + string) \<times> client \<times> baidu_req net_event list" where
  "baidu_initiateMultipartUpload c key contentType options = (Inl unsupported_multipart, c, [])"

definition baidu_uploadPart ::
  "client \<Rightarrow> string \<Rightarrow> string \<Rightarrow> int \<Rightarrow> nat list \<Rightarrow> int option
     \<Rightarrow> (js_error + string) \<times> client \<times> baidu_req net_event list" where
  "baidu_uploadPart c key uploadId partNumber body contentLength =
     (Inl unsupported_multipart, c, [])"

definition baidu_completeMultipartUpload ::
  "client \<Rightarrow> string \<Rightarrow> string \<Rightarrow> (int \<times> string) list
     \<Rightarrow> (js_error + unit) \<times> client \<times> baidu_req net_event list" where
  "baidu_completeMultipartUpload c key uploadId parts = (Inr (), c, [])"

definition baidu_abortMultipartUpload ::
  "client \<Rightarrow> string \<Rightarrow> string
     \<Rightarrow> (js_error + unit) \<times> client \<times> baidu_req net_event list" where
  "baidu_abortMultipartUpload c key uploadId = (Inr (), c, [])"

text \<open>A stand-in for \<open>md5Hex\<close> used to evaluate \<open>putObject\<close> on concrete bytes.\<close>

definition demo_md5 :: "nat list \<Rightarrow> string" where
  "demo_md5 bytes = ''md5-of-'' @ nat_digits (length bytes) @ ''-bytes''"

definition precreate_ok :: "int \<Rightarrow> string \<Rightarrow> baidu_data" where
  "precreate_ok rt uid = \<lparr> errno = Some 0, return_type = Some rt, uploadid = uid, file_list = [] \<rparr>"

subsection \<open>Directory listings\<close>

record list_result =
  objects :: "drive_object list"
  prefixes :: "string list"
  isTruncated :: bool
  nextContinuationToken :: "string option"

text \<open>
  \<open>Array.prototype.sort(compareFn)\<close> is stable and, for a consistent comparator, returns
  the elements in non-decreasing order; it is modelled by stable insertion sort.
  \<open>String.prototype.localeCompare\<close> (the collation of the platform's default locale) is a
  parameter \<open>localeCompare\<close> of the listing functions.
\<close>

fun insert_sorted :: "('a \<Rightarrow> 'a \<Rightarrow> int) \<Rightarrow> 'a \<Rightarrow> 'a list \<Rightarrow> 'a list" where
  "insert_sorted cmp x [] = [x]"
| "insert_sorted cmp x (y # ys) =
     (if cmp x y \<le> 0 then x # y # ys else y # insert_sorted cmp x ys)"

definition js_sort :: "('a \<Rightarrow> 'a \<Rightarrow> int) \<Rightarrow> 'a list \<Rightarrow> 'a list" where
  "js_sort cmp xs = foldr (insert_sorted cmp) xs []"

text \<open>The comparator passed to \<open>sort\<close> by every adapter.\<close>

definition compare_objects ::
  "(string \<Rightarrow> string \<Rightarrow> int) \<Rightarrow> drive_object \<Rightarrow> drive_object \<Rightarrow> int" where
  "compare_objects localeCompare a b =
     (if obj_isDirectory a \<noteq> obj_isDirectory b then (if obj_isDirectory a then - 1 else 1)
      else localeCompare (obj_name a) (obj_name b))"

text \<open>
  The loop over the listed files, common to the adapters: every file gives an object, and
  the key of every directory is also pushed to \<open>prefixes\<close>.
\<close>

definition directory_keys :: "drive_object list \<Rightarrow> string list" where
  "directory_keys objs = map obj_key (filter obj_isDirectory objs)"


definition object_key :: "string \<Rightarrow> string \<Rightarrow> bool \<Rightarrow> string" where
  "object_key keyBase name isDirectory =
     (if isDirectory then keyBase @ name @ ''/'' else keyBase @ name)"

text \<open>
  Baidu Yun. \<open>toISOString\<close> stands for \<open>new Date(ms).toISOString()\<close>, for times in the range
  of \<open>Date\<close>. The result of \<open>listObjects\<close> is built from the files returned by \<open>listFiles\<close>;
  \<open>pfx\<close> is the \<open>prefix\<close> argument.
\<close>

definition baidu_object :: "(int \<Rightarrow> string) \<Rightarrow> string \<Rightarrow> baidu_file \<Rightarrow> drive_object" where
  "baidu_object toISOString keyBase file =
     \<lparr> obj_key = object_key keyBase (server_filename file) (isdir file = 1),
       obj_name = server_filename file,
       obj_size = Some (bf_size file),
       obj_lastModified = toISOString (server_mtime file * 1000),
       obj_isDirectory = (isdir file = 1) \<rparr>"

definition baidu_list_result ::
  "(string \<Rightarrow> string \<Rightarrow> int) \<Rightarrow> (int \<Rightarrow> string) \<Rightarrow> string \<Rightarrow> baidu_file list \<Rightarrow> list_result" where
  "baidu_list_result localeCompare toISOString pfx files =
     (let keyBase = (if pfx \<noteq> [] then stripTrailingSlash (stripLeadingSlash pfx) @ ''/''
                     else []);
          objs = map (baidu_object toISOString keyBase) files
      in \<lparr> objects = js_sort (compare_objects localeCompare) objs,
           prefixes = directory_keys objs,
           isTruncated = False,
           nextContinuationToken = None \<rparr>)"

definition baidu_listObjects ::
  "(string \<Rightarrow> string \<Rightarrow> int) \<Rightarrow> (int \<Rightarrow> string) \<Rightarrow> client \<Rightarrow> string
     \<Rightarrow> token_reply list \<Rightarrow> baidu_body api_reply list
     \<Rightarrow> (list_result, baidu_req, baidu_body) run option" where
  "baidu_listObjects localeCompare toISOString c pfx toks replies =
     (let path = baidu_resolvePath c
                   (if pfx \<noteq> [] then ''/'' @ stripLeadingSlash pfx else ''/'')
      in case baidu_request (ListReq path) c toks replies of
           None \<Rightarrow> None
         | Some r \<Rightarrow>
             Some \<lparr> outcome =
                      (case outcome r of
                         Inl e \<Rightarrow> Inl e
                       | Inr d \<Rightarrow>
                           Inr (baidu_list_result localeCompare toISOString pfx (file_list d))),
                    client_after = client_after r, tokens_left = tokens_left r,
                    replies_left = replies_left r, trace = trace r \<rparr>)"
















section \<open>The upload-state codec (drive-utils)\<close>

text \<open>
  A JavaScript string is in general a sequence of UTF-16 code units; the JSON text of a
  state is modelled as a \<open>nat list\<close> of code units, while tokens and base64 text, which the
  platform functions accept or produce only within Latin-1, are \<open>string\<close>s.
  \<open>btoa\<close> throws when its argument has a code unit above 255 and otherwise returns the
  padded base64 encoding of the bytes.
\<close>

definition b64_char :: "nat \<Rightarrow> char" where
  "b64_char n =
     (if n < 26 then char_of (n + 65)
      else if n < 52 then char_of (n + 71)
      else if n < 62 then char_of (n - 4)
      else if n = 62 then CHR ''+''
      else CHR ''/'')"

fun b64_encode :: "nat list \<Rightarrow> string" where
  "b64_encode (x # y # z # rest) =
     b64_char (x div 4) # b64_char ((x mod 4) * 16 + y div 16)
       # b64_char ((y mod 16) * 4 + z div 64) # b64_char (z mod 64) # b64_encode rest"
| "b64_encode [x, y] =
     [b64_char (x div 4), b64_char ((x mod 4) * 16 + y div 16), b64_char ((y mod 16) * 4),
      CHR ''='']"
| "b64_encode [x] = [b64_char (x div 4), b64_char ((x mod 4) * 16), CHR ''='', CHR ''='']"
| "b64_encode [] = []"

text \<open>The base64 digits of the bytes, that is \<open>b64_encode\<close> without the padding.\<close>

fun b64_digits :: "nat list \<Rightarrow> string" where
  "b64_digits (x # y # z # rest) =
     b64_char (x div 4) # b64_char ((x mod 4) * 16 + y div 16)
       # b64_char ((y mod 16) * 4 + z div 64) # b64_char (z mod 64) # b64_digits rest"
| "b64_digits [x, y] =
     [b64_char (x div 4), b64_char ((x mod 4) * 16 + y div 16), b64_char ((y mod 16) * 4)]"
| "b64_digits [x] = [b64_char (x div 4), b64_char ((x mod 4) * 16)]"
| "b64_digits [] = []"

definition btoa :: "nat list \<Rightarrow> string option" where
  "btoa s = (if list_ex (\<lambda>u. 255 < u) s then None else Some (b64_encode s))"

text \<open>
  \<open>s.replace(/x/g, "y")\<close> for single characters, and \<open>s.replace(/=+$/g, "")\<close>, which removes
  all trailing \<open>=\<close>.
\<close>

definition replace_one :: "char \<Rightarrow> char \<Rightarrow> char \<Rightarrow> char" where
  "replace_one x y c = (if c = x then y else c)"

definition replace_char :: "char \<Rightarrow> char \<Rightarrow> string \<Rightarrow> string" where
  "replace_char x y s = map (replace_one x y) s"

definition strip_trailing_equals :: "string \<Rightarrow> string" where
  "strip_trailing_equals s = rev (dropWhile (\<lambda>c. c = CHR ''='') (rev s))"

text \<open>
  \<open>JSON.stringify\<close> and \<open>JSON.parse\<close> are parameters: \<open>stringify\<close> gives the JSON text of a
  state that can be serialized, \<open>parse\<close> returns \<open>None\<close> when \<open>JSON.parse\<close> throws.
\<close>

definition encodeUploadState :: "('s \<Rightarrow> nat list) \<Rightarrow> 's \<Rightarrow> js_error + string" where
  "encodeUploadState stringify state =
     (let json = stringify state
      in case btoa json of
           None \<Rightarrow> Inl InvalidCharacterError
         | Some base64 \<Rightarrow>
             Inr (strip_trailing_equals
                    (replace_char CHR ''/'' CHR ''_'' (replace_char CHR ''+'' CHR ''-'' base64))))"

definition decodeUploadState :: "(nat list \<Rightarrow> 's option) \<Rightarrow> string \<Rightarrow> js_error + 's" where
  "decodeUploadState parse token =
     (let padded = replace_char CHR ''_'' CHR ''/'' (replace_char CHR ''-'' CHR ''+'' token);
          padLength = (if length padded mod 4 = 0 then 0 else 4 - length padded mod 4);
          base64 = padded @ replicate padLength CHR ''=''
      in case atob base64 of
           None \<Rightarrow> Inl InvalidCharacterError
         | Some json \<Rightarrow>
             (case parse (map of_char json) of
                None \<Rightarrow> Inl SyntaxError
              | Some state \<Rightarrow> Inr state))"

text \<open>
  The characters that are safe in URLs and headers (letters, digits, \<open>-\<close> and \<open>_\<close>), and the
  characters that \<open>decodeUploadState\<close> tolerates in a token: those, the two they replace,
  the padding character and ASCII white space.
\<close>

definition is_alnum :: "char \<Rightarrow> bool" where
  "is_alnum c =
     (let n = (of_char c :: nat)
      in (65 \<le> n \<and> n \<le> 90) \<or> (97 \<le> n \<and> n \<le> 122) \<or> (48 \<le> n \<and> n \<le> 57))"

definition url_safe :: "char \<Rightarrow> bool" where
  "url_safe c = (is_alnum c \<or> c = CHR ''-'' \<or> c = CHR ''_'')"

definition tolerated :: "char \<Rightarrow> bool" where
  "tolerated c =
     (url_safe c \<or> c = CHR ''+'' \<or> c = CHR ''/'' \<or> c = CHR ''='' \<or> is_ascii_whitespace c)"

text \<open>
  Two states to evaluate the codec on, with \<open>unit\<close> as the type of states:
  \<open>JSON.stringify({})\<close> is the text \<open>{}\<close>, which \<open>JSON.parse\<close> maps back to the empty map, and
  \<open>JSON.stringify({"n": "\<dots>"})\<close> with the one-character value U+6587 is the text
  \<open>{"n":"\<dots>"}\<close> with the code unit 25991 between the last two quotes.
\<close>

definition empty_object_text :: "nat list" where
  "empty_object_text = [123, 125]"

definition empty_object_stringify :: "unit \<Rightarrow> nat list" where
  "empty_object_stringify s = empty_object_text"

definition parse_empty_object :: "nat list \<Rightarrow> unit option" where
  "parse_empty_object t = (if t = empty_object_text then Some () else None)"

definition wide_object_text :: "nat list" where
  "wide_object_text = [123, 34, 110, 34, 58, 34, 25991, 34, 125]"

definition wide_object_stringify :: "unit \<Rightarrow> nat list" where
  "wide_object_stringify s = wide_object_text"
section \<open>Properties of the path utilities\<close>

lemma stripLeadingSlash_Cons:
  "stripLeadingSlash (c # p) = (if c = CHR ''/'' then p else c # p)"
  by (simp add: stripLeadingSlash_def)

lemma stripLeadingSlash_Nil: "stripLeadingSlash [] = []"
  by (simp add: stripLeadingSlash_def)

lemma stripLeadingSlash_idem_iff:
  "stripLeadingSlash (stripLeadingSlash p) = stripLeadingSlash p \<longleftrightarrow> \<not> prefix ''//'' p"
proof (cases p)
  case Nil
  then show ?thesis by (simp add: stripLeadingSlash_Nil)
next
  case (Cons c q)
  show ?thesis
  proof (cases q)
    case Nil
    with Cons show ?thesis by (simp add: stripLeadingSlash_Cons stripLeadingSlash_Nil)
  next
    case (Cons d r)
    with \<open>p = c # q\<close> show ?thesis by (auto simp: stripLeadingSlash_Cons)
  qed
qed

lemma suffix_single_iff: "suffix [c] p \<longleftrightarrow> p \<noteq> [] \<and> last p = c"
  by (cases p rule: rev_cases) auto

lemma suffix_double_snoc: "suffix [a, b] (r @ [d, c]) \<longleftrightarrow> a = d \<and> b = c"
  by (auto simp: suffix_to_prefix)

lemma stripTrailingSlash_snoc:
  "stripTrailingSlash (q @ [c]) = (if q \<noteq> [] \<and> c = CHR ''/'' then q else q @ [c])"
  by (cases q) (simp_all add: stripTrailingSlash_def suffix_single_iff)

lemma stripTrailingSlash_snoc2:
  "stripTrailingSlash (r @ [d, c]) = (if c = CHR ''/'' then r @ [d] else r @ [d, c])"
  using stripTrailingSlash_snoc [of "r @ [d]" c] by simp

lemma stripTrailingSlash_idem_iff:
  "stripTrailingSlash (stripTrailingSlash p) = stripTrailingSlash p
     \<longleftrightarrow> \<not> (3 \<le> length p \<and> suffix ''//'' p)"
proof (cases p rule: rev_cases)
  case Nil
  then show ?thesis by (simp add: stripTrailingSlash_def)
next
  case (snoc q c)
  show ?thesis
  proof (cases q rule: rev_cases)
    case Nil
    with snoc show ?thesis by (simp add: stripTrailingSlash_def)
  next
    case (snoc r d)
    with \<open>p = q @ [c]\<close> have p: "p = r @ [d, c]" by simp
    show ?thesis
    proof (cases r)
      case Nil
      with p show ?thesis by (simp add: stripTrailingSlash_def suffix_single_iff)
    next
      case (Cons a list)
      then have "r \<noteq> []" "Suc 0 \<le> length r" by simp_all
      then show ?thesis
        unfolding p
        by (simp add: stripTrailingSlash_snoc2 stripTrailingSlash_snoc suffix_double_snoc)
    qed
  qed
qed

lemma stripLeadingSlash_one:
  "(stripLeadingSlash p = p \<or> CHR ''/'' # stripLeadingSlash p = p)
   \<and> (stripLeadingSlash p = p \<longleftrightarrow> \<not> prefix ''/'' p)"
  by (cases p) (simp_all add: stripLeadingSlash_Cons stripLeadingSlash_Nil)

lemma stripTrailingSlash_one:
  "(stripTrailingSlash p = p \<or> stripTrailingSlash p @ ''/'' = p)
   \<and> (stripTrailingSlash p = p \<longleftrightarrow> length p \<le> 1 \<or> \<not> suffix ''/'' p)"
proof (cases "length p \<le> 1 \<or> \<not> suffix ''/'' p")
  case True
  then show ?thesis by (auto simp: stripTrailingSlash_def)
next
  case False
  then have l: "\<not> length p \<le> 1" and s: "suffix ''/'' p" by simp_all
  from s have n: "p \<noteq> []" and e: "last p = CHR ''/''"
    by (simp_all add: suffix_single_iff)
  from l s have b: "stripTrailingSlash p = butlast p"
    by (simp add: stripTrailingSlash_def)
  from n e have "butlast p @ ''/'' = p"
    using append_butlast_last_id [of p] by simp
  moreover from n have "butlast p \<noteq> p"
    by (metis length_butlast diff_less length_greater_0_conv less_irrefl zero_less_one)
  ultimately show ?thesis
    using False b by simp
qed

text \<open>
  C5 (as amended). Both functions are total (they are plain HOL functions: no branch of the
  source throws). Each call removes at most one slash: the result of \<open>stripLeadingSlash\<close> is
  its argument or its argument without a leading \<open>/\<close>, and the argument is changed exactly
  when it starts with \<open>/\<close>; the result of \<open>stripTrailingSlash\<close> is its argument or its
  argument without a final \<open>/\<close>, and the argument is changed exactly when it is longer than
  one character and ends with \<open>/\<close>. So \<open>stripTrailingSlash\<close> leaves every string of length
  at most 1 unchanged; \<open>stripLeadingSlash\<close> leaves the empty string and every one-character
  string other than \<open>/\<close> unchanged, and maps \<open>/\<close> to the empty string; \<open>stripLeadingSlash\<close> is
  idempotent at \<open>p\<close> exactly when \<open>p\<close> does not start with two slashes, and
  \<open>stripTrailingSlash\<close> is idempotent at \<open>p\<close> exactly when \<open>p\<close> is not a string of length at
  least 3 that ends with two slashes.
\<close>

theorem C5_strip_slash_laws:
  "(length p \<le> 1 \<longrightarrow> stripTrailingSlash p = p)
   \<and> stripLeadingSlash [] = []
   \<and> stripLeadingSlash [c] = (if c = CHR ''/'' then [] else [c])
   \<and> (stripLeadingSlash p = p \<or> CHR ''/'' # stripLeadingSlash p = p)
   \<and> (stripLeadingSlash p = p \<longleftrightarrow> \<not> prefix ''/'' p)
   \<and> (stripTrailingSlash p = p \<or> stripTrailingSlash p @ ''/'' = p)
   \<and> (stripTrailingSlash p = p \<longleftrightarrow> length p \<le> 1 \<or> \<not> suffix ''/'' p)
   \<and> (stripLeadingSlash (stripLeadingSlash p) = stripLeadingSlash p \<longleftrightarrow> \<not> prefix ''//'' p)
   \<and> (stripTrailingSlash (stripTrailingSlash p) = stripTrailingSlash p
        \<longleftrightarrow> \<not> (3 \<le> length p \<and> suffix ''//'' p))"
proof -
  have a: "length p \<le> 1 \<longrightarrow> stripTrailingSlash p = p"
    by (simp add: stripTrailingSlash_def)
  have b: "stripLeadingSlash [] = []"
    "stripLeadingSlash [c] = (if c = CHR ''/'' then [] else [c])"
    by (simp_all add: stripLeadingSlash_Cons stripLeadingSlash_Nil)
  from a b stripLeadingSlash_one [of p] stripTrailingSlash_one [of p]
    stripLeadingSlash_idem_iff [of p] stripTrailingSlash_idem_iff [of p]
  show ?thesis
    by blast
qed

theorem C5_strip_slash_laws_witness:
  "length ''/'' \<le> 1 \<and> stripTrailingSlash ''/'' = ''/''
   \<and> stripLeadingSlash ''a'' = ''a''
   \<and> CHR ''/'' # stripLeadingSlash ''/a/b'' = ''/a/b''
   \<and> stripTrailingSlash ''a/b/'' @ ''/'' = ''a/b/''
   \<and> stripLeadingSlash (stripLeadingSlash ''/a/b'') = stripLeadingSlash ''/a/b''
   \<and> stripTrailingSlash (stripTrailingSlash ''a/b/'') = stripTrailingSlash ''a/b/''"
proof -
  note one = C5_strip_slash_laws [of "''/''" "CHR ''a''"]
  note lead = C5_strip_slash_laws [of "''/a/b''" "CHR ''a''"]
  note trail = C5_strip_slash_laws [of "''a/b/''" "CHR ''a''"]
  have a: "length ''/'' \<le> 1" "stripTrailingSlash ''/'' = ''/''" "stripLeadingSlash ''a'' = ''a''"
    using one by simp_all
  have b: "CHR ''/'' # stripLeadingSlash ''/a/b'' = ''/a/b''"
    "stripLeadingSlash (stripLeadingSlash ''/a/b'') = stripLeadingSlash ''/a/b''"
    using lead by auto
  have c: "stripTrailingSlash ''a/b/'' @ ''/'' = ''a/b/''"
    "stripTrailingSlash (stripTrailingSlash ''a/b/'') = stripTrailingSlash ''a/b/''"
    using trail by (auto simp: suffix_to_prefix)
  from a b c show ?thesis
    by simp
qed

theorem C5_idempotence_counterexample:
  "stripLeadingSlash (stripLeadingSlash ''//a'') \<noteq> stripLeadingSlash ''//a''
   \<and> stripTrailingSlash (stripTrailingSlash ''a//'') \<noteq> stripTrailingSlash ''a//''
   \<and> stripLeadingSlash ''/'' \<noteq> ''/''"
  by (simp add: stripLeadingSlash_def stripTrailingSlash_def suffix_single_iff)

section \<open>Properties of the WebDAV bridge\<close>

lemma adapter_calls_append: "adapter_calls (xs @ ys) = adapter_calls xs @ adapter_calls ys"
  by (induction xs) (auto split: effect.splits)

lemma persist_no_calls: "adapter_calls (snd (persistClientState d c sid)) = []"
  by (simp add: persistClientState_def Let_def split: option.splits)

lemma withClientState_outcome:
  "fst (withClientState d c sid act) = fst (act c)"
  by (simp add: withClientState_def split: prod.splits sum.splits)

lemma withClientState_client:
  "fst (snd (withClientState d c sid act)) = fst (snd (act c))"
  by (simp add: withClientState_def split: prod.splits sum.splits)

lemma withClientState_effects:
  "snd (snd (withClientState d c sid act)) =
     snd (snd (act c)) @ snd (persistClientState d (fst (snd (act c))) sid)
       @ (if isl (fst (persistClientState d (fst (snd (act c))) sid))
          then [ConsoleError ''Failed to persist storage state:''] else [])"
  by (simp add: withClientState_def split: prod.splits sum.splits)

lemma withClientState_calls:
  "adapter_calls (snd (snd (withClientState d c sid act))) = adapter_calls (snd (snd (act c)))"
  by (simp add: withClientState_effects adapter_calls_append persist_no_calls)

lemma unit_method_calls:
  "adapter_calls (snd (unit_method d c sid op ok ft lt)) = [(op, isl (fst (unitOp d c op)))]"
proof -
  obtain out c' effs where w: "withClientState d c sid (call_unitOp d op) = (out, c', effs)"
    by (cases "withClientState d c sid (call_unitOp d op)") auto
  have "adapter_calls effs = adapter_calls (snd (snd (call_unitOp d op c)))"
    using withClientState_calls [of d c sid "call_unitOp d op"] w by simp
  then show ?thesis
    using w by (cases out) (simp_all add: unit_method_def call_unitOp_def adapter_calls_append split: prod.splits)
qed

lemma unit_method_response:
  "fst (unit_method d c sid op ok ft lt) =
     (if isl (fst (unitOp d c op)) then plain 500 ft else empty_response ok)"
proof -
  obtain out c' effs where w: "withClientState d c sid (call_unitOp d op) = (out, c', effs)"
    by (cases "withClientState d c sid (call_unitOp d op)") auto
  have "fst (unitOp d c op) = out"
    using withClientState_outcome [of d c sid "call_unitOp d op"] w
    by (simp add: call_unitOp_def split_beta)
  then show ?thesis
    using w by (cases out) (simp_all add: unit_method_def)
qed

lemma unit_method_status:
  "status (fst (unit_method d c sid op ok ft lt)) = (if isl (fst (unitOp d c op)) then 500 else ok)"
  by (simp add: unit_method_response plain_def empty_response_def)

lemma move_method_calls_response:
  assumes h: "(op, True) \<in> set (adapter_calls (snd (move_method d c sid p dp)))"
  shows "fst (move_method d c sid p dp) = plain 500 ''Failed to move''"
proof (cases "has_moveObject d c")
  case True
  with h have "isl (fst (unitOp d c (MoveObject p dp)))"
    by (simp add: move_method_def unit_method_calls)
  with True show ?thesis
    by (simp add: move_method_def unit_method_response)
next
  case False
  obtain o1 c1 e1 where w1:
    "withClientState d c sid (call_unitOp d (CopyObject p dp)) = (o1, c1, e1)"
    by (cases "withClientState d c sid (call_unitOp d (CopyObject p dp))") auto
  obtain o2 c2 e2 where w2:
    "withClientState d c1 sid (call_unitOp d (DeleteObject p)) = (o2, c2, e2)"
    by (cases "withClientState d c1 sid (call_unitOp d (DeleteObject p))") auto
  have a1: "adapter_calls e1 = [(CopyObject p dp, isl o1)]"
    using withClientState_calls [of d c sid "call_unitOp d (CopyObject p dp)"]
          withClientState_outcome [of d c sid "call_unitOp d (CopyObject p dp)"] w1
    by (simp add: call_unitOp_def split: prod.splits)
  have a2: "adapter_calls e2 = [(DeleteObject p, isl o2)]"
    using withClientState_calls [of d c1 sid "call_unitOp d (DeleteObject p)"]
          withClientState_outcome [of d c1 sid "call_unitOp d (DeleteObject p)"] w2
    by (simp add: call_unitOp_def split: prod.splits)
  show ?thesis
  proof (cases o1)
    case (Inl err)
    with False w1 show ?thesis by (simp add: move_method_def)
  next
    case (Inr u)
    note o1 = this
    show ?thesis
    proof (cases o2)
      case (Inl err)
      with False w1 w2 o1 show ?thesis by (simp add: move_method_def)
    next
      case (Inr u2)
      with False w1 w2 o1 a1 a2 have "adapter_calls (snd (move_method d c sid p dp))
          = [(CopyObject p dp, False), (DeleteObject p, False)]"
        by (simp add: move_method_def adapter_calls_append)
      with h show ?thesis by simp
    qed
  qed
qed

lemma action_methods_failure:
  assumes "(op, True) \<in> set (adapter_calls (snd (action_methods d c sid m p rq)))"
  shows "fst (action_methods d c sid m p rq) \<in> set (map (plain 500) failure_texts)"
proof -
  have um: "\<And>op' ok ft lt.
      (op, True) \<in> set (adapter_calls (snd (unit_method d c sid op' ok ft lt)))
        \<Longrightarrow> fst (unit_method d c sid op' ok ft lt) = plain 500 ft"
    by (simp add: unit_method_calls unit_method_response)
  show ?thesis
    using assms
    by (auto simp: action_methods_def failure_texts_def
          dest: um move_method_calls_response split: if_splits option.splits)
qed

lemma action_failure_500:
  assumes "(op, True) \<in> set (adapter_calls (snd (action d e rq)))"
  shows "fst (action d e rq) \<in> set (map (plain 500) failure_texts)"
  using assms action_methods_failure [of op d]
  by (auto simp: action_def Let_def split_beta adapter_calls_append
        split: if_splits option.splits)

lemma move_method_status: "status (fst (move_method d c sid p dp)) \<in> {201, 500}"
proof (cases "has_moveObject d c")
  case True
  then show ?thesis by (simp add: move_method_def unit_method_status)
next
  case False
  then show ?thesis
    by (auto simp: move_method_def plain_def empty_response_def split: prod.splits sum.splits)
qed

lemma move_method_not_gate:
  "status (fst (move_method d c sid p dp)) \<noteq> 401"
  "status (fst (move_method d c sid p dp)) \<noteq> 403"
  "status (fst (move_method d c sid p dp)) \<noteq> 405"
  using move_method_status [of d c sid p dp] by auto

lemma unit_method_not_gate:
  "ok \<notin> {401, 403, 405} \<Longrightarrow> status (fst (unit_method d c sid op ok ft lt)) \<notin> {401, 403, 405}"
  by (simp add: unit_method_status)

lemma action_methods_gate_no_calls:
  "status (fst (action_methods d c sid m p rq)) \<in> {401, 403, 405}
     \<Longrightarrow> adapter_calls (snd (action_methods d c sid m p rq)) = []"
  using unit_method_not_gate [of 201 d c sid] unit_method_not_gate [of 204 d c sid]
  by (auto simp: action_methods_def move_method_not_gate plain_def
        split: if_splits option.splits)

lemma action_gate_no_calls:
  "status (fst (action d e rq)) \<in> {401, 403, 405} \<Longrightarrow> adapter_calls (snd (action d e rq)) = []"
  using action_methods_gate_no_calls [of d]
  by (auto simp: action_def Let_def split_beta adapter_calls_append plain_def
        createUnauthorizedResponse_def split: if_splits option.splits)

lemma listObjects_calls:
  "adapter_calls (snd (snd (withClientState d c sid (call_listObjects d p)))) =
     [(ListObjects p, isl (fst (listObjects d c p)))]"
  by (simp add: withClientState_calls call_listObjects_def split: prod.splits)

lemma getObject_calls:
  "adapter_calls (snd (snd (withClientState d c sid (call_getObject d p)))) =
     [(GetObject p, isl (fst (getObject d c p)))]"
  by (simp add: withClientState_calls call_getObject_def split: prod.splits)

lemma listObjects_outcome:
  "fst (withClientState d c sid (call_listObjects d p)) = fst (listObjects d c p)"
  by (simp add: withClientState_outcome call_listObjects_def split: prod.splits)

lemma getObject_outcome:
  "fst (withClientState d c sid (call_getObject d p)) = fst (getObject d c p)"
  by (simp add: withClientState_outcome call_getObject_def split: prod.splits)

lemma propfind_method_calls:
  "adapter_calls (snd (propfind_method d c sid p b)) = [(ListObjects p, isl (fst (listObjects d c p)))]"
proof -
  obtain out c' effs where w: "withClientState d c sid (call_listObjects d p) = (out, c', effs)"
    by (cases "withClientState d c sid (call_listObjects d p)") auto
  have "adapter_calls effs = [(ListObjects p, isl (fst (listObjects d c p)))]"
    using listObjects_calls [of d c sid p] w by simp
  then show ?thesis
    using w by (cases out) (simp_all add: propfind_method_def adapter_calls_append)
qed

lemma propfind_method_response:
  "fst (propfind_method d c sid p b) =
     (case fst (listObjects d c p) of
        Inl _ \<Rightarrow> plain 500 ''Internal Server Error''
      | Inr objs \<Rightarrow> xml_response (Multistatus objs p b))"
proof -
  obtain out c' effs where w: "withClientState d c sid (call_listObjects d p) = (out, c', effs)"
    by (cases "withClientState d c sid (call_listObjects d p)") auto
  have "fst (listObjects d c p) = out"
    using listObjects_outcome [of d c sid p] w by simp
  then show ?thesis
    using w by (cases out) (simp_all add: propfind_method_def)
qed

lemma propfind_method_status:
  "status (fst (propfind_method d c sid p b)) = (if isl (fst (listObjects d c p)) then 500 else 207)"
  by (simp add: propfind_method_response plain_def xml_response_def split: sum.splits)

lemma get_method_calls:
  "adapter_calls (snd (get_method d c sid m p)) =
     (if suffix ''/'' p \<or> p = [] then [(ListObjects p, isl (fst (listObjects d c p)))]
      else [(GetObject p, isl (fst (getObject d c p)))])"
proof -
  obtain o1 c1 e1 where w1: "withClientState d c sid (call_listObjects d p) = (o1, c1, e1)"
    by (cases "withClientState d c sid (call_listObjects d p)") auto
  obtain o2 c2 e2 where w2: "withClientState d c sid (call_getObject d p) = (o2, c2, e2)"
    by (cases "withClientState d c sid (call_getObject d p)") auto
  have a1: "adapter_calls e1 = [(ListObjects p, isl (fst (listObjects d c p)))]"
    using listObjects_calls [of d c sid p] w1 by simp
  have a2: "adapter_calls e2 = [(GetObject p, isl (fst (getObject d c p)))]"
    using getObject_calls [of d c sid p] w2 by simp
  show ?thesis
    using w1 w2 a1 a2
    by (cases o1; cases o2) (simp_all add: get_method_def adapter_calls_append)
qed

lemma get_method_response:
  "fst (get_method d c sid m p) =
     (if suffix ''/'' p \<or> p = [] then
        (case fst (listObjects d c p) of
           Inl _ \<Rightarrow> plain 404 ''Not Found''
         | Inr objs \<Rightarrow>
             \<lparr> status = 200, resp_body = DirectoryIndex p objs,
               resp_headers = [(''Content-Type'', ''text/html; charset=utf-8'')] \<rparr>)
      else
        (case fst (getObject d c p) of
           Inl _ \<Rightarrow> plain 404 ''Not Found''
         | Inr r \<Rightarrow>
             \<lparr> status = 200,
               resp_body = (if m = ''HEAD'' then NoBody else Bytes (or_body r)),
               resp_headers = object_headers p r \<rparr>))"
proof -
  obtain o1 c1 e1 where w1: "withClientState d c sid (call_listObjects d p) = (o1, c1, e1)"
    by (cases "withClientState d c sid (call_listObjects d p)") auto
  obtain o2 c2 e2 where w2: "withClientState d c sid (call_getObject d p) = (o2, c2, e2)"
    by (cases "withClientState d c sid (call_getObject d p)") auto
  have a1: "o1 = fst (listObjects d c p)"
    using listObjects_outcome [of d c sid p] w1 by simp
  have a2: "o2 = fst (getObject d c p)"
    using getObject_outcome [of d c sid p] w2 by simp
  show ?thesis
    using w1 w2 a1 [symmetric] a2 [symmetric]
    by (cases o1; cases o2) (simp_all add: get_method_def)
qed

lemma get_method_status:
  "status (fst (get_method d c sid m p)) =
     (if (if suffix ''/'' p \<or> p = [] then isl (fst (listObjects d c p))
          else isl (fst (getObject d c p))) then 404 else 200)"
  by (simp add: get_method_response plain_def split: sum.splits)

lemma propfind_method_failure:
  "(op, True) \<in> set (adapter_calls (snd (propfind_method d c sid p b)))
     \<Longrightarrow> fst (propfind_method d c sid p b) = plain 500 ''Internal Server Error''"
  by (cases "fst (listObjects d c p)")
     (simp_all add: propfind_method_calls propfind_method_response)

lemma get_method_failure:
  "(op, True) \<in> set (adapter_calls (snd (get_method d c sid m p)))
     \<Longrightarrow> fst (get_method d c sid m p) = plain 404 ''Not Found''"
  by (cases "fst (listObjects d c p)"; cases "fst (getObject d c p)")
     (auto simp: get_method_calls get_method_response split: if_splits)

lemma loader_methods_failure:
  assumes "(op, True) \<in> set (adapter_calls (snd (loader_methods d c sid m p)))"
  shows "(m = ''PROPFIND'' \<and> fst (loader_methods d c sid m p) = plain 500 ''Internal Server Error'')
       \<or> (m \<in> {''GET'', ''HEAD''} \<and> fst (loader_methods d c sid m p) = plain 404 ''Not Found'')"
proof (cases "m = ''PROPFIND''")
  case True
  with assms show ?thesis
    by (simp add: loader_methods_def propfind_method_failure)
next
  case False
  note np = this
  show ?thesis
  proof (cases "m = ''GET'' \<or> m = ''HEAD''")
    case True
    with np assms have "fst (get_method d c sid m p) = plain 404 ''Not Found''"
      by (auto simp: loader_methods_def intro: get_method_failure)
    with np True show ?thesis by (auto simp: loader_methods_def)
  next
    case False
    with np assms show ?thesis by (simp add: loader_methods_def)
  qed
qed

lemma loader_failure_status:
  assumes "(op, True) \<in> set (adapter_calls (snd (loader d e rq)))"
  shows "(toUpperCase (req_method rq) = ''PROPFIND''
            \<and> fst (loader d e rq) = plain 500 ''Internal Server Error'')
       \<or> (toUpperCase (req_method rq) \<in> {''GET'', ''HEAD''}
            \<and> fst (loader d e rq) = plain 404 ''Not Found'')"
proof -
  let ?sid = "parseInt10 (or_default (param_storageId rq) ''0'')"
  let ?m = "toUpperCase (req_method rq)"
  let ?p = "or_default (param_splat rq) []"
  from assms obtain st where st: "getStorageById d ?sid = Some st"
    and run: "loader d e rq =
        (fst (loader_methods d (createClient d st) ?sid ?m ?p),
         [InitDatabase, GetStorageById ?sid] @ snd (loader_methods d (createClient d st) ?sid ?m ?p))"
    by (auto simp: loader_def Let_def split_beta split: if_splits option.splits)
  from assms run have "(op, True) \<in> set (adapter_calls (snd (loader_methods d (createClient d st) ?sid ?m ?p)))"
    by (simp add: adapter_calls_append)
  from loader_methods_failure [OF this] run show ?thesis by simp
qed

lemma loader_methods_gate_no_calls:
  "status (fst (loader_methods d c sid m p)) \<in> {401, 403, 405}
     \<Longrightarrow> adapter_calls (snd (loader_methods d c sid m p)) = []"
  by (auto simp: loader_methods_def propfind_method_status get_method_status
        split: if_splits)

lemma loader_gate_no_calls:
  "status (fst (loader d e rq)) \<in> {401, 403, 405} \<Longrightarrow> adapter_calls (snd (loader d e rq)) = []"
  using loader_methods_gate_no_calls [of d]
  by (auto simp: loader_def Let_def split_beta adapter_calls_append plain_def
        createUnauthorizedResponse_def options_response_def xml_response_def
        split: if_splits option.splits)

lemma rfc_append:
  "reads_follow_calls xs \<Longrightarrow> reads_follow_calls ys \<Longrightarrow> reads_follow_calls (xs @ ys)"
proof (induction xs rule: reads_follow_calls.induct)
  case 1
  then show ?case by simp
next
  case (2 x)
  then show ?case by (cases ys) simp_all
next
  case (3 x y r)
  then show ?case by simp
qed

lemma rfc_persist:
  "getStateUpdates d c \<noteq> None \<Longrightarrow>
     \<exists>rest. snd (persistClientState d c sid) = GetStateUpdates # rest \<and> reads_follow_calls rest
        \<and> reads_follow_calls (GetStateUpdates # rest)"
  by (auto simp: persistClientState_def Let_def is_call_def split: option.splits)

lemma rfc_withClientState:
  assumes g: "\<And>c. getStateUpdates d c \<noteq> None"
    and a: "snd (snd (act c)) = [AdapterCall op b]"
  shows "reads_follow_calls (snd (snd (withClientState d c sid act)))"
proof -
  obtain rest where r: "snd (persistClientState d (fst (snd (act c))) sid) = GetStateUpdates # rest"
      "reads_follow_calls (GetStateUpdates # rest)"
    using rfc_persist [OF g] by blast
  have "reads_follow_calls ((GetStateUpdates # rest) @ [ConsoleError ''Failed to persist storage state:''])"
    by (rule rfc_append [OF r(2)]) (simp add: is_call_def)
  then show ?thesis
    using r by (simp add: withClientState_effects a is_call_def)
qed

lemma rfc_console: "reads_follow_calls xs \<Longrightarrow> reads_follow_calls (xs @ [ConsoleError t])"
  by (rule rfc_append) (simp_all add: is_call_def)

lemma rfc_unit_method:
  assumes g: "\<And>c. getStateUpdates d c \<noteq> None"
  shows "reads_follow_calls (snd (unit_method d c sid op ok ft lt))"
proof -
  obtain out c' effs where w: "withClientState d c sid (call_unitOp d op) = (out, c', effs)"
    by (cases "withClientState d c sid (call_unitOp d op)") auto
  have "reads_follow_calls (snd (snd (withClientState d c sid (call_unitOp d op))))"
    by (rule rfc_withClientState [OF g, where b = "isl (fst (unitOp d c op))"])
       (simp add: call_unitOp_def split_beta)
  with w have "reads_follow_calls effs" by simp
  then show ?thesis
    using w by (cases out) (simp_all add: unit_method_def rfc_console)
qed

lemma rfc_list:
  assumes g: "\<And>c. getStateUpdates d c \<noteq> None"
  shows "reads_follow_calls (snd (snd (withClientState d c sid (call_listObjects d p))))"
  by (rule rfc_withClientState [OF g, where b = "isl (fst (listObjects d c p))"])
     (simp add: call_listObjects_def split_beta)

lemma rfc_get:
  assumes g: "\<And>c. getStateUpdates d c \<noteq> None"
  shows "reads_follow_calls (snd (snd (withClientState d c sid (call_getObject d p))))"
  by (rule rfc_withClientState [OF g, where b = "isl (fst (getObject d c p))"])
     (simp add: call_getObject_def split_beta)

lemma rfc_unit:
  assumes g: "\<And>c. getStateUpdates d c \<noteq> None"
  shows "reads_follow_calls (snd (snd (withClientState d c sid (call_unitOp d op))))"
  by (rule rfc_withClientState [OF g, where b = "isl (fst (unitOp d c op))"])
     (simp add: call_unitOp_def split_beta)

lemma rfc_propfind_method:
  assumes g: "\<And>c. getStateUpdates d c \<noteq> None"
  shows "reads_follow_calls (snd (propfind_method d c sid p b))"
  using rfc_list [OF g, of c sid p]
  by (auto simp: propfind_method_def rfc_console split: prod.splits sum.splits)

lemma rfc_get_method:
  assumes g: "\<And>c. getStateUpdates d c \<noteq> None"
  shows "reads_follow_calls (snd (get_method d c sid m p))"
  using rfc_list [OF g, of c sid p] rfc_get [OF g, of c sid p]
  by (auto simp: get_method_def rfc_console split: prod.splits sum.splits)

lemma rfc_move_method:
  assumes g: "\<And>c. getStateUpdates d c \<noteq> None"
  shows "reads_follow_calls (snd (move_method d c sid p dp))"
proof (cases "has_moveObject d c")
  case True
  then show ?thesis by (simp add: move_method_def rfc_unit_method [OF g])
next
  case False
  obtain o1 c1 e1 where w1:
    "withClientState d c sid (call_unitOp d (CopyObject p dp)) = (o1, c1, e1)"
    by (cases "withClientState d c sid (call_unitOp d (CopyObject p dp))") auto
  obtain o2 c2 e2 where w2:
    "withClientState d c1 sid (call_unitOp d (DeleteObject p)) = (o2, c2, e2)"
    by (cases "withClientState d c1 sid (call_unitOp d (DeleteObject p))") auto
  have r1: "reads_follow_calls e1" using rfc_unit [OF g, of c sid "CopyObject p dp"] w1 by simp
  have r2: "reads_follow_calls e2" using rfc_unit [OF g, of c1 sid "DeleteObject p"] w2 by simp
  have r12: "reads_follow_calls (e1 @ e2)" by (rule rfc_append [OF r1 r2])
  from False w1 w2 r1 r12 show ?thesis
    using rfc_console [OF r12] rfc_console [OF r1]
    by (cases o1; cases o2) (simp_all add: move_method_def)
qed

lemma rfc_pre:
  "reads_follow_calls effs \<Longrightarrow> reads_follow_calls ([InitDatabase, GetStorageById sid] @ effs)"
  by (rule rfc_append) (simp_all add: is_call_def)

lemma rfc_loader_methods:
  assumes g: "\<And>c. getStateUpdates d c \<noteq> None"
  shows "reads_follow_calls (snd (loader_methods d c sid m p))"
  by (simp add: loader_methods_def rfc_propfind_method [OF g] rfc_get_method [OF g])

lemma rfc_action_methods:
  assumes g: "\<And>c. getStateUpdates d c \<noteq> None"
  shows "reads_follow_calls (snd (action_methods d c sid m p rq))"
  by (simp add: action_methods_def rfc_unit_method [OF g] rfc_move_method [OF g] is_call_def
        split: option.splits)

lemma rfc_loader:
  assumes g: "\<And>c. getStateUpdates d c \<noteq> None"
  shows "reads_follow_calls (snd (loader d e rq))"
  using rfc_pre [OF rfc_loader_methods [OF g]]
  by (simp add: loader_def Let_def split_beta is_call_def split: option.splits)

lemma rfc_action:
  assumes g: "\<And>c. getStateUpdates d c \<noteq> None"
  shows "reads_follow_calls (snd (action d e rq))"
  using rfc_pre [OF rfc_action_methods [OF g]]
  by (simp add: action_def Let_def split_beta is_call_def split: option.splits)

subsection \<open>C2: what an adapter failure is answered with\<close>

text \<open>
  C2 (as amended). Whenever an adapter invocation made for a request throws: the action
  (\<open>PUT\<close>, \<open>DELETE\<close>, \<open>MKCOL\<close>, \<open>COPY\<close>, \<open>MOVE\<close>) answers 500 with one of five fixed bodies;
  the loader answers 500 with the body \<open>Internal Server Error\<close> for \<open>PROPFIND\<close>, and 404 with
  the body \<open>Not Found\<close> for \<open>GET\<close> and \<open>HEAD\<close> (whether \<open>listObjects\<close> or \<open>getObject\<close> threw).
  A response with status 401, 403 or 405 is produced without any adapter invocation.
\<close>

theorem C2_adapter_failure_responses:
  "((op, True) \<in> set (adapter_calls (snd (action d e rq)))
      \<longrightarrow> fst (action d e rq) \<in> set (map (plain 500) failure_texts))
   \<and> ((op, True) \<in> set (adapter_calls (snd (loader d e rq)))
      \<longrightarrow> (toUpperCase (req_method rq) = ''PROPFIND''
             \<and> fst (loader d e rq) = plain 500 ''Internal Server Error'')
          \<or> (toUpperCase (req_method rq) \<in> {''GET'', ''HEAD''}
             \<and> fst (loader d e rq) = plain 404 ''Not Found''))
   \<and> (status (fst (action d e rq)) \<in> {401, 403, 405}
      \<longrightarrow> adapter_calls (snd (action d e rq)) = [])
   \<and> (status (fst (loader d e rq)) \<in> {401, 403, 405}
      \<longrightarrow> adapter_calls (snd (loader d e rq)) = [])"
  using action_failure_500 [of op d e rq] loader_failure_status [of op d e rq]
        action_gate_no_calls [of d e rq] loader_gate_no_calls [of d e rq]
  by blast

theorem C2_adapter_failure_responses_witness:
  "(PutObject ''a.txt'' [] ''application/octet-stream'', True)
       \<in> set (adapter_calls (snd (action failing_deps demo_env (demo_request ''PUT'' admin_changeme))))
   \<and> fst (action failing_deps demo_env (demo_request ''PUT'' admin_changeme))
       = plain 500 ''Failed to upload file''
   \<and> (ListObjects ''a.txt'', True)
       \<in> set (adapter_calls (snd (loader failing_deps demo_env (demo_request ''PROPFIND'' admin_changeme))))
   \<and> fst (loader failing_deps demo_env (demo_request ''PROPFIND'' admin_changeme))
       = plain 500 ''Internal Server Error''
   \<and> status (fst (action failing_deps demo_env (demo_request ''PUT'' None))) = 401
   \<and> adapter_calls (snd (action failing_deps demo_env (demo_request ''PUT'' None))) = []
   \<and> status (fst (loader failing_deps demo_env (demo_request ''PUT'' admin_changeme))) = 405
   \<and> adapter_calls (snd (loader failing_deps demo_env (demo_request ''PUT'' admin_changeme))) = []"
proof -
  have h1: "(PutObject ''a.txt'' [] ''application/octet-stream'', True)
       \<in> set (adapter_calls (snd (action failing_deps demo_env (demo_request ''PUT'' admin_changeme))))"
    by code_simp
  have h2: "(ListObjects ''a.txt'', True)
       \<in> set (adapter_calls (snd (loader failing_deps demo_env (demo_request ''PROPFIND'' admin_changeme))))"
    by code_simp
  have h3: "status (fst (action failing_deps demo_env (demo_request ''PUT'' None))) = 401"
    by code_simp
  have h4: "status (fst (loader failing_deps demo_env (demo_request ''PUT'' admin_changeme))) = 405"
    by code_simp
  have m: "toUpperCase (req_method (demo_request ''PROPFIND'' admin_changeme)) = ''PROPFIND''"
    by code_simp
  have b: "fst (action failing_deps demo_env (demo_request ''PUT'' admin_changeme))
       = plain 500 ''Failed to upload file''"
    by code_simp
  from C2_adapter_failure_responses
         [of "PutObject ''a.txt'' [] ''application/octet-stream''" failing_deps demo_env
             "demo_request ''PUT'' admin_changeme"]
       C2_adapter_failure_responses
         [of "ListObjects ''a.txt''" failing_deps demo_env "demo_request ''PROPFIND'' admin_changeme"]
       C2_adapter_failure_responses [of undefined failing_deps demo_env "demo_request ''PUT'' None"]
       C2_adapter_failure_responses
         [of undefined failing_deps demo_env "demo_request ''PUT'' admin_changeme"]
       h1 h2 h3 h4 m b
  show ?thesis by simp
qed

theorem C2_get_failure_is_404_counterexample:
  "(GetObject ''a.txt'', True)
       \<in> set (adapter_calls (snd (loader failing_deps demo_env (demo_request ''GET'' admin_changeme))))
   \<and> parseInt10 ''3'' \<noteq> Some 0
   \<and> status (fst (loader failing_deps demo_env (demo_request ''GET'' admin_changeme))) = 404
   \<and> status (fst (loader failing_deps demo_env (demo_request ''HEAD'' admin_changeme))) = 404
   \<and> status (fst (loader failing_deps demo_env (demo_request ''GET'' admin_changeme))) \<noteq> 500"
  by code_simp

subsection \<open>C8: propagation of adapter state\<close>

text \<open>
  C8. \<open>withClientState\<close> returns exactly the outcome of the adapter operation (its value or
  its error) and the adapter's state, whatever the persistence step does; after the
  operation's own effects it performs the effects of \<open>persistClientState\<close> on the adapter's
  new state, followed by one \<open>console.error\<close> line when the persistence step threw. For a
  client whose \<open>getStateUpdates\<close> is the one of the drive adapters, the persistence step
  reads the updates and writes to the config store exactly the slices flagged as changed
  (and does not write when nothing changed). In every run of the loader and of the action
  over clients that have \<open>getStateUpdates\<close>, each adapter invocation, throwing or not, is
  directly followed by that read.
\<close>

theorem C8_state_propagation:
  "fst (withClientState d c sid act) = fst (act c)
   \<and> fst (snd (withClientState d c sid act)) = fst (snd (act c))
   \<and> snd (snd (withClientState d c sid act)) =
       snd (snd (act c)) @ snd (persistClientState d (fst (snd (act c))) sid)
         @ (if isl (fst (persistClientState d (fst (snd (act c))) sid))
            then [ConsoleError ''Failed to persist storage state:''] else [])
   \<and> (getStateUpdates d c' = Some (drive_getStateUpdates st) \<longrightarrow>
        snd (persistClientState d c' sid) =
          (if configChanged st \<or> savingChanged st
           then [GetStateUpdates,
                 UpdateStorage sid
                   \<lparr> upd_config = (if configChanged st then Some (ds_config st) else None),
                     upd_saving = (if savingChanged st then Some (ds_saving st) else None) \<rparr>]
           else [GetStateUpdates]))
   \<and> ((\<forall>x. getStateUpdates d x \<noteq> None) \<longrightarrow>
        reads_follow_calls (snd (loader d e rq)) \<and> reads_follow_calls (snd (action d e rq)))"
proof -
  have p: "getStateUpdates d c' = Some (drive_getStateUpdates st) \<Longrightarrow>
        snd (persistClientState d c' sid) =
          (if configChanged st \<or> savingChanged st
           then [GetStateUpdates,
                 UpdateStorage sid
                   \<lparr> upd_config = (if configChanged st then Some (ds_config st) else None),
                     upd_saving = (if savingChanged st then Some (ds_saving st) else None) \<rparr>]
           else [GetStateUpdates])"
    by (simp add: persistClientState_def drive_getStateUpdates_def Let_def)
  have r: "(\<forall>x. getStateUpdates d x \<noteq> None) \<Longrightarrow>
        reads_follow_calls (snd (loader d e rq)) \<and> reads_follow_calls (snd (action d e rq))"
    by (simp add: rfc_loader rfc_action)
  show ?thesis
    using p r
    by (simp only: withClientState_outcome withClientState_client withClientState_effects)
       blast
qed

theorem C8_state_propagation_witness:
  "getStateUpdates failing_deps (refreshed (createClient failing_deps ()))
       = Some (drive_getStateUpdates (refreshed (createClient failing_deps ())))
   \<and> (\<forall>x. getStateUpdates failing_deps x \<noteq> None)
   \<and> fst (withClientState failing_deps (createClient failing_deps ()) (Some 3)
            (call_getObject failing_deps ''a.txt''))
       = Inl (Error ''file not found'')
   \<and> snd (snd (withClientState failing_deps (createClient failing_deps ()) (Some 3)
            (call_getObject failing_deps ''a.txt'')))
       = [AdapterCall (GetObject ''a.txt'') True, GetStateUpdates,
          UpdateStorage (Some 3) \<lparr> upd_config = None, upd_saving = Some ''access_token=new'' \<rparr>,
          ConsoleError ''Failed to persist storage state:'']
   \<and> reads_follow_calls (snd (action failing_deps demo_env (demo_request ''DELETE'' admin_changeme)))"
proof -
  let ?c = "createClient failing_deps ()"
  have g: "\<forall>x. getStateUpdates failing_deps x \<noteq> None"
    by (simp add: failing_deps_def)
  have u: "getStateUpdates failing_deps (refreshed ?c) = Some (drive_getStateUpdates (refreshed ?c))"
    by (simp add: failing_deps_def)
  have a: "call_getObject failing_deps ''a.txt'' ?c
       = (Inl (Error ''file not found''), refreshed ?c, [AdapterCall (GetObject ''a.txt'') True])"
    by (simp add: call_getObject_def failing_deps_def)
  have f: "isl (fst (persistClientState failing_deps (refreshed ?c) (Some 3)))"
    by code_simp
  have s: "configChanged (refreshed ?c) = False" "savingChanged (refreshed ?c) = True"
     "ds_saving (refreshed ?c) = ''access_token=new''"
    by (simp_all add: refreshed_def failing_deps_def)
  from C8_state_propagation
         [of failing_deps ?c "Some 3" "call_getObject failing_deps ''a.txt''"
             "refreshed ?c" "refreshed ?c" demo_env "demo_request ''DELETE'' admin_changeme"]
       g u a f s
  show ?thesis by simp
qed

subsection \<open>C10: OPTIONS\<close>

text \<open>
  C10. A request whose method is \<open>OPTIONS\<close> (in any letter case) is answered by the loader
  with status 200, no body and the three capability headers, whatever the environment, the
  credentials and the config store are: in particular when WebDAV is disabled and when the
  request carries no or wrong credentials. The handler performs no effect at all: it
  neither calls the config store nor creates or invokes an adapter.
\<close>

theorem C10_options_before_gates:
  "toUpperCase (req_method rq) = ''OPTIONS'' \<Longrightarrow>
     loader d e rq =
       (\<lparr> status = 200, resp_body = NoBody,
          resp_headers =
            [(''DAV'', ''1, 2''),
             (''Allow'', ''OPTIONS, GET, HEAD, PUT, DELETE, PROPFIND, MKCOL, COPY, MOVE''),
             (''MS-Author-Via'', ''DAV'')] \<rparr>,
        [])"
  by (simp add: loader_def options_response_def)

theorem C10_options_before_gates_witness:
  "toUpperCase (req_method (demo_request ''OPTIONS'' None)) = ''OPTIONS''
   \<and> WEBDAV_ENABLED disabled_env \<noteq> Some ''true''
   \<and> \<not> validateWebdavAuth (req_authorization (demo_request ''OPTIONS'' None)) disabled_env
   \<and> status (fst (loader failing_deps disabled_env (demo_request ''OPTIONS'' None))) = 200
   \<and> snd (loader failing_deps disabled_env (demo_request ''OPTIONS'' None)) = []"
proof -
  have m: "toUpperCase (req_method (demo_request ''OPTIONS'' None)) = ''OPTIONS''"
    by code_simp
  have n: "WEBDAV_ENABLED disabled_env \<noteq> Some ''true''"
    by (simp add: disabled_env_def demo_env_def)
  have a: "\<not> validateWebdavAuth (req_authorization (demo_request ''OPTIONS'' None)) disabled_env"
    by (simp add: demo_request_def validateWebdavAuth_def)
  from C10_options_before_gates [OF m, of failing_deps disabled_env] m n a
  show ?thesis by simp
qed

subsection \<open>C9: the credentials accepted by default\<close>

lemma webdav_credentials_precedence:
  "webdavUsername e =
     (if truthy (WEBDAV_USERNAME e) then the (WEBDAV_USERNAME e)
      else if truthy (ADMIN_USERNAME e) then the (ADMIN_USERNAME e) else ''admin'')"
  "webdavPassword e =
     (if truthy (WEBDAV_PASSWORD e) then the (WEBDAV_PASSWORD e)
      else if truthy (ADMIN_PASSWORD e) then the (ADMIN_PASSWORD e) else ''changeme'')"
  by (auto simp: webdavUsername_def webdavPassword_def js_or_def or_default_def truthy_def
        split: option.splits)

lemma validateWebdavAuth_iff:
  "validateWebdavAuth h e \<longleftrightarrow>
     (\<exists>t credentials. h = Some (''Basic '' @ t) \<and> atob t = Some credentials
        \<and> at_index (split_on CHR '':'' credentials) 0 = Some (webdavUsername e)
        \<and> at_index (split_on CHR '':'' credentials) 1 = Some (webdavPassword e))"
proof (cases h)
  case None
  then show ?thesis by (simp add: validateWebdavAuth_def)
next
  case (Some s)
  show ?thesis
  proof (cases "prefix ''Basic '' s")
    case False
    with Some show ?thesis by (auto simp: validateWebdavAuth_def)
  next
    case True
    then obtain t where t: "s = ''Basic '' @ t" by (auto simp: prefix_def)
    with Some show ?thesis
      by (auto simp: validateWebdavAuth_def basic_credentials_def Let_def split: option.splits)
  qed
qed

text \<open>
  C9. With no credential variable configured the bridge compares the user name and the
  password it extracts from the header with \<open>admin\<close> and \<open>changeme\<close>. The extraction keeps
  only the first two colon-separated fields of the decoded credentials, so the header that
  a client sends for user \<open>admin\<close> and password \<open>changeme:x\<close> (the credentials
  \<open>admin:changeme:x\<close>) is accepted as well as the one for \<open>admin\<close> and \<open>changeme\<close>.
\<close>

theorem C9_default_credentials_prefix_accepted:
  "atob ''YWRtaW46Y2hhbmdlbWU6eA=='' = Some ''admin:changeme:x''
   \<and> validateWebdavAuth (Some ''Basic YWRtaW46Y2hhbmdlbWU6eA=='') demo_env
   \<and> validateWebdavAuth (Some ''Basic YWRtaW46Y2hhbmdlbWU='') demo_env"
  by code_simp

section \<open>Properties of the adapters\<close>

subsection \<open>C1: retry after an auth-expiry signal\<close>

lemma sat_fields [simp]:
  "access_token (ds_saving (store_access_token now d c)) = td_access_token d"
  "expires_at (ds_saving (store_access_token now d c)) = new_expiry now d"
  "savingChanged (store_access_token now d c)"
  "client_id (ds_config (store_access_token now d c)) = client_id (ds_config c)"
  "client_secret (ds_config (store_access_token now d c)) = client_secret (ds_config c)"
  "refresh_token (ds_config (store_access_token now d c)) =
     (if td_refresh_token d \<noteq> [] then td_refresh_token d else refresh_token (ds_config c))"
  by (simp_all add: store_access_token_def Let_def markSavingChanged_def markConfigChanged_def)

lemma fresh_after_refresh:
  "0 \<le> now \<Longrightarrow> td_expires_in d = 0 \<or> 300 < td_expires_in d \<Longrightarrow>
     expires_at (ds_saving c) = new_expiry now d \<Longrightarrow> \<not> isTokenExpired now c"
  by (auto simp: isTokenExpired_def new_expiry_def)


lemma gdrive_refresh_ok:
  assumes "client_id (ds_config c) \<noteq> []" "client_secret (ds_config c) \<noteq> []"
    "refresh_token (ds_config c) \<noteq> []"
    "response_ok st" "td_error d = []" "td_access_token d \<noteq> []"
  shows "gdrive_refreshToken now c (TokenJson st d # toks) = Some (Inr (), store_access_token now d c, toks)"
  using assms by (simp add: gdrive_refreshToken_def)

lemma gdrive_no_refresh_needed:
  "access_token (ds_saving c) \<noteq> [] \<Longrightarrow> \<not> isTokenExpired now c \<Longrightarrow>
     gdrive_ensureToken now c toks = Some (Inr (), c, toks, [])"
  by (simp add: gdrive_ensureToken_def)

lemma gdrive_request_plain:
  assumes "access_token (ds_saving c) \<noteq> []" "\<not> isTokenExpired now c" "st \<noteq> 401"
  shows "gdrive_request now q c toks (Response st b # rest) =
     Some \<lparr> outcome = Inr (st, b), client_after = c, tokens_left = toks, replies_left = rest,
            trace = [ApiFetch q (access_token (ds_saving c))] \<rparr>"
  using assms by (subst gdrive_request.simps) (simp add: gdrive_no_refresh_needed)




lemma st_fields [simp]:
  "access_token (ds_saving (store_tokens d c)) = td_access_token d"
  "savingChanged (store_tokens d c)"
  "client_id (ds_config (store_tokens d c)) = client_id (ds_config c)"
  "client_secret (ds_config (store_tokens d c)) = client_secret (ds_config c)"
  "use_online_api (ds_config (store_tokens d c)) = use_online_api (ds_config c)"
  "api_address (ds_config (store_tokens d c)) = api_address (ds_config c)"
  by (simp_all add: store_tokens_def markSavingChanged_def markConfigChanged_def)

lemma ste_fields [simp]:
  "access_token (ds_saving (store_tokens_expiry now d c)) = td_access_token d"
  "expires_at (ds_saving (store_tokens_expiry now d c)) = new_expiry now d"
  "savingChanged (store_tokens_expiry now d c)"
  "client_id (ds_config (store_tokens_expiry now d c)) = client_id (ds_config c)"
  "client_secret (ds_config (store_tokens_expiry now d c)) = client_secret (ds_config c)"
  by (simp_all add: store_tokens_expiry_def markSavingChanged_def markConfigChanged_def)


lemma baidu_no_refresh_needed:
  "access_token (ds_saving c) \<noteq> [] \<Longrightarrow> baidu_ensureToken c toks = Some (Inr (), c, toks, [])"
  by (simp add: baidu_ensureToken_def)

lemma baidu_request_plain:
  assumes "access_token (ds_saving c) \<noteq> []" "errno d \<noteq> Some 111" "errno d \<noteq> Some (- 6)"
  shows "baidu_request q c toks (Response st (Json d) # rest) =
     Some \<lparr> outcome = baidu_result d, client_after = c, tokens_left = toks, replies_left = rest,
            trace = [ApiFetch q (access_token (ds_saving c))] \<rparr>"
  using assms
  by (subst baidu_request.simps) (auto simp: baidu_no_refresh_needed baidu_result_def)











lemma gdrive_retries_unbounded:
  assumes t: "0 \<le> now" "response_ok st" "td_error d = []" "td_access_token d \<noteq> []"
      "td_expires_in d = 0 \<or> 300 < td_expires_in d"
  shows "access_token (ds_saving c) \<noteq> [] \<Longrightarrow> \<not> isTokenExpired now c \<Longrightarrow>
      client_id (ds_config c) \<noteq> [] \<Longrightarrow> client_secret (ds_config c) \<noteq> [] \<Longrightarrow>
      refresh_token (ds_config c) \<noteq> [] \<Longrightarrow>
      \<exists>r. gdrive_request now q c (replicate n (TokenJson st d))
             (replicate n (Response 401 b) @ [Response 200 b']) = Some r
          \<and> outcome r = Inr (200, b') \<and> refresh_count (trace r) = n"
proof (induction n arbitrary: c)
  case 0
  then show ?case
    by (simp add: gdrive_request_plain refresh_count_def)
next
  case (Suc n)
  let ?c2 = "store_access_token now d c"
  have f: "\<not> isTokenExpired now ?c2"
    using t by (intro fresh_after_refresh [of now d]) simp_all
  from Suc.prems t f
  have "\<exists>r. gdrive_request now q ?c2 (replicate n (TokenJson st d))
             (replicate n (Response 401 b) @ [Response 200 b']) = Some r
          \<and> outcome r = Inr (200, b') \<and> refresh_count (trace r) = n"
    by (intro Suc.IH) simp_all
  then obtain r where r: "gdrive_request now q ?c2 (replicate n (TokenJson st d))
             (replicate n (Response 401 b) @ [Response 200 b']) = Some r"
      "outcome r = Inr (200, b')" "refresh_count (trace r) = n"
    by blast
  show ?case
    using Suc.prems t r
    by (subst gdrive_request.simps)
       (simp add: gdrive_no_refresh_needed gdrive_refresh_ok refresh_count_def)
qed




subsection \<open>C7: the Baidu upload\<close>



lemma block_list_from_eq:
  assumes s: "0 < s"
  shows "block_list_from md5 s data (j * s) =
     map (\<lambda>p. md5 (chunk_at s data p))
       [j..<(length data + s - 1) div s]"
proof (induction "length data - j * s" arbitrary: j rule: less_induct)
  case less
  show ?case
  proof (cases "j * s < length data")
    case True
    have lt: "length data - Suc j * s < length data - j * s"
      using True s by simp
    have jk: "j < (length data + s - 1) div s"
    proof -
      have "j * s + s \<le> length data + s - 1" using True s by simp
      then have "(j + 1) * s \<le> length data + s - 1" by (simp add: algebra_simps)
      then have "j + 1 \<le> (length data + s - 1) div s"
        using s by (metis div_le_mono div_mult_self_is_m)
      then show ?thesis by simp
    qed
    have up: "[j..<(length data + s - 1) div s] = j # [Suc j..<(length data + s - 1) div s]"
      using jk by (simp add: upt_conv_Cons)
    have step: "block_list_from md5 s data (j * s) =
        md5 (chunk_at s data j)
          # block_list_from md5 s data (Suc j * s)"
      using True s by (subst block_list_from.simps) (simp add: add.commute chunk_at_def Let_def)
    show ?thesis
      using less(1) [OF lt] step up by simp
  next
    case False
    then have "length data \<le> j * s" by simp
    then have "length data + s - 1 < (j + 1) * s" using s by simp
    then have "(length data + s - 1) div s < j + 1"
      using s by (simp add: div_less_iff_less_mult)
    then have "[j..<(length data + s - 1) div s] = []" by simp
    moreover have "block_list_from md5 s data (j * s) = []"
      using False by (subst block_list_from.simps) simp
    ultimately show ?thesis by simp
  qed
qed

lemma block_list_from_0:
  "0 < s \<Longrightarrow> block_list_from md5 s data 0 =
     map (\<lambda>p. md5 (chunk_at s data p))
       [0..<(length data + s - 1) div s]"
  using block_list_from_eq [of s md5 data 0] by simp










theorem C7_custom_floor_and_missing_upload_id_counterexample:
  "getSliceSize
     (cached_client \<lparr> ds_config := (ds_config cached_client) \<lparr> custom_upload_part_size := 1 \<rparr> \<rparr>) 3
     = 4 * MiB
   \<and> 1 * MiB \<noteq> 4 * MiB
   \<and> baidu_putObject demo_md5 cached_client ''a.txt'' [104, 105, 33] []
        [Response 200 (Json (precreate_ok 1 []))] [SliceJson (Some 0) None]
      = Some \<lparr> outcome = Inl (Error ''Baidu upload id missing''), client_after = cached_client,
               tokens_left = [], replies_left = [],
               trace =
                 [ApiFetch (PrecreateReq ''/a.txt'' 3 [''md5-of-3-bytes''] ''md5-of-3-bytes''
                              ''md5-of-3-bytes'') ''t0''] \<rparr>
   \<and> baidu_putObject demo_md5 cached_client ''a.txt'' [104, 105, 33] []
        [Response 200 (Json (precreate_ok 1 ''up1'')), Response 200 (Json (precreate_ok 0 []))]
        [SliceJson (Some 2) None]
      = Some \<lparr> outcome = Inl (Error ''Baidu upload slice failed''),
               client_after = cached_client, tokens_left = [],
               replies_left = [Response 200 (Json (precreate_ok 0 []))],
               trace =
                 [ApiFetch (PrecreateReq ''/a.txt'' 3 [''md5-of-3-bytes''] ''md5-of-3-bytes''
                              ''md5-of-3-bytes'') ''t0'',
                  SliceUpload 0 [104, 105, 33] ''up1'' ''t0''] \<rparr>"
proof -
  let ?data = "[104, 105, 33 :: nat]"
  have g: "getSliceSize
     (cached_client \<lparr> ds_config := (ds_config cached_client) \<lparr> custom_upload_part_size := 1 \<rparr> \<rparr>) 3
     = 4 * MiB"
    by (simp add: getSliceSize_def cached_client_def MiB_def)
  have n: "1 * MiB \<noteq> 4 * MiB"
    by (simp add: MiB_def)
  have tok: "access_token (ds_saving cached_client) \<noteq> []"
    and tk: "access_token (ds_saving cached_client) = ''t0''"
    by (simp_all add: cached_client_def)
  have s: "nat (getSliceSize cached_client n) = 4194304" for n
    by (simp add: getSliceSize_def cached_client_def)
  have ch: "chunk_at 4194304 ?data 0 = ?data"
    by (simp add: chunk_at_def slice_def)
  have m: "demo_md5 ?data = ''md5-of-3-bytes''"
    by code_simp
  have bl: "block_list_from demo_md5 4194304 ?data 0 = [''md5-of-3-bytes'']"
    using block_list_from_0 [of 4194304 demo_md5 ?data] by (simp add: ch m)
  have p: "baidu_resolvePath cached_client ''a.txt'' = ''/a.txt''"
    by code_simp
  have sm: "slice ?data 0 (Suc (Suc (Suc 0))) = ?data"
    by (simp add: slice_def)
  have e: "errno (precreate_ok 1 uid) \<noteq> Some 111" "errno (precreate_ok 1 uid) \<noteq> Some (- 6)"
    for uid
    by (simp_all add: precreate_ok_def)
  have r: "baidu_result (precreate_ok 1 uid) = Inr (precreate_ok 1 uid)" for uid
    by (simp add: baidu_result_def precreate_ok_def)
  have f: "return_type (precreate_ok 1 uid) \<noteq> Some 2" "uploadid (precreate_ok 1 uid) = uid" for uid
    by (simp_all add: precreate_ok_def)
  have a: "baidu_putObject demo_md5 cached_client ''a.txt'' ?data []
        [Response 200 (Json (precreate_ok 1 []))] [SliceJson (Some 0) None]
      = Some \<lparr> outcome = Inl (Error ''Baidu upload id missing''), client_after = cached_client,
               tokens_left = [], replies_left = [],
               trace =
                 [ApiFetch (PrecreateReq ''/a.txt'' 3 [''md5-of-3-bytes''] ''md5-of-3-bytes''
                              ''md5-of-3-bytes'') ''t0''] \<rparr>"
    by (simp add: baidu_putObject_def Let_def baidu_request_plain [OF tok e] r f s bl p sm m tk)
  have b: "baidu_putObject demo_md5 cached_client ''a.txt'' ?data []
        [Response 200 (Json (precreate_ok 1 ''up1'')), Response 200 (Json (precreate_ok 0 []))]
        [SliceJson (Some 2) None]
      = Some \<lparr> outcome = Inl (Error ''Baidu upload slice failed''),
               client_after = cached_client, tokens_left = [],
               replies_left = [Response 200 (Json (precreate_ok 0 []))],
               trace =
                 [ApiFetch (PrecreateReq ''/a.txt'' 3 [''md5-of-3-bytes''] ''md5-of-3-bytes''
                              ''md5-of-3-bytes'') ''t0'',
                  SliceUpload 0 ?data ''up1'' ''t0''] \<rparr>"
    by (simp add: baidu_putObject_def Let_def baidu_request_plain [OF tok e] r f s bl p sm m tk ch)
  from g n a b show ?thesis
    by blast
qed

subsection \<open>C3: the multipart methods of the Baidu adapter\<close>

text \<open>
  C3 (as amended). On the Baidu adapter \<open>initiateMultipartUpload\<close> and \<open>uploadPart\<close> fail for
  every input with the error \<open>BaiduYun does not support multipart upload in this mode\<close>,
  while \<open>completeMultipartUpload\<close> and \<open>abortMultipartUpload\<close> resolve for every input; none of
  the four changes the adapter's state or touches the network.
\<close>

theorem C3_baidu_multipart_methods:
  "baidu_initiateMultipartUpload c key contentType options =
     (Inl (Error ''BaiduYun does not support multipart upload in this mode''), c, [])
   \<and> baidu_uploadPart c key uploadId partNumber body contentLength =
     (Inl (Error ''BaiduYun does not support multipart upload in this mode''), c, [])
   \<and> baidu_completeMultipartUpload c key uploadId parts = (Inr (), c, [])
   \<and> baidu_abortMultipartUpload c key uploadId = (Inr (), c, [])"
  by (simp add: baidu_initiateMultipartUpload_def baidu_uploadPart_def
        baidu_completeMultipartUpload_def baidu_abortMultipartUpload_def
        unsupported_multipart_def)

theorem C3_complete_and_abort_resolve_counterexample:
  "fst (baidu_completeMultipartUpload cached_client ''a.bin'' ''upload-1'' [(1, ''etag-1'')])
     = Inr ()
   \<and> fst (baidu_abortMultipartUpload cached_client ''a.bin'' ''upload-1'') = Inr ()"
  by (simp add: baidu_completeMultipartUpload_def baidu_abortMultipartUpload_def)

subsection \<open>C6: directory listings\<close>

lemma set_insert_sorted [simp]: "set (insert_sorted cmp x ys) = insert x (set ys)"
  by (induction ys) auto

lemma length_insert_sorted [simp]: "length (insert_sorted cmp x ys) = Suc (length ys)"
  by (induction ys) auto

lemma set_js_sort [simp]: "set (js_sort cmp xs) = set xs"
  by (induction xs) (simp_all add: js_sort_def)

lemma length_js_sort [simp]: "length (js_sort cmp xs) = length xs"
  by (induction xs) (simp_all add: js_sort_def)













section \<open>Properties of the upload-state codec\<close>

lemma b64_value_char: "n < 64 \<Longrightarrow> b64_value (b64_char n) = Some n"
  by (auto simp: b64_value_def b64_char_def Let_def)

lemma of_char_plus: "(of_char c :: nat) = 43 \<longleftrightarrow> c = CHR ''+''"
proof -
  have "(of_char c :: nat) = of_char CHR ''+'' \<longleftrightarrow> c = CHR ''+''"
    by (simp only: of_char_eq_iff)
  then show ?thesis by simp
qed

lemma of_char_slash: "(of_char c :: nat) = 47 \<longleftrightarrow> c = CHR ''/''"
proof -
  have "(of_char c :: nat) = of_char CHR ''/'' \<longleftrightarrow> c = CHR ''/''"
    by (simp only: of_char_eq_iff)
  then show ?thesis by simp
qed

lemma b64_value_facts:
  assumes "b64_value c \<noteq> None"
  shows "c \<noteq> CHR ''=''" "c \<noteq> CHR ''-''" "c \<noteq> CHR ''_''" "\<not> is_ascii_whitespace c"
    "is_alnum c \<or> c = CHR ''+'' \<or> c = CHR ''/''"
  using assms
  by (auto simp: b64_value_def is_ascii_whitespace_def is_alnum_def Let_def of_char_plus
      of_char_slash split: if_splits)

lemma sextet_bound_1: "x \<le> 255 \<Longrightarrow> x div 4 < (64::nat)"
  by simp

lemma sextet_bound_2: "y \<le> 255 \<Longrightarrow> (x mod 4) * 16 + y div 16 < (64::nat)"
proof -
  assume "y \<le> 255"
  then have "y div 16 < 16" by simp
  moreover have "x mod 4 < 4" by simp
  ultimately show ?thesis by linarith
qed

lemma sextet_bound_3: "z \<le> 255 \<Longrightarrow> (y mod 16) * 4 + z div 64 < (64::nat)"
proof -
  assume "z \<le> 255"
  then have "z div 64 < 4" by simp
  moreover have "y mod 16 < 16" by simp
  ultimately show ?thesis by linarith
qed

lemma sextet_bound_4: "(x mod 4) * 16 < (64::nat)" "(y mod 16) * 4 < (64::nat)"
  by simp_all

lemma mod_3_step: "Suc (Suc (Suc n)) mod 3 = n mod 3"
  by presburger

lemma mod_4_step: "Suc (Suc (Suc (Suc n))) mod 4 = n mod 4"
  by presburger


lemmas sextet_bounds = sextet_bound_1 sextet_bound_2 sextet_bound_3 sextet_bound_4

lemma digits_valid:
  "list_all (\<lambda>u. u \<le> 255) bs \<Longrightarrow> list_all (\<lambda>c. b64_value c \<noteq> None) (b64_digits bs)"
  by (induction bs rule: b64_digits.induct) (simp_all add: b64_value_char sextet_bounds)

lemma byte_high_nibble:
  assumes "y \<le> 255"
  shows "y div 16 mod 16 = (y::nat) div 16" "y div 16 div 16 = 0"
proof -
  from assms have "y div 16 < 16" by simp
  then show "y div 16 mod 16 = y div 16" "y div 16 div 16 = 0" by simp_all
qed

lemma byte_top_bits:
  assumes "z \<le> 255"
  shows "z div 64 mod 4 = (z::nat) div 64" "z div 64 div 4 = 0"
proof -
  from assms have "z div 64 < 4" by simp
  then show "z div 64 mod 4 = z div 64" "z div 64 div 4 = 0" by simp_all
qed

lemma digits_decode:
  "list_all (\<lambda>u. u \<le> 255) bs \<Longrightarrow>
     b64_decode_sextets (map (\<lambda>c. the (b64_value c)) (b64_digits bs)) = bs"
  by (induction bs rule: b64_digits.induct)
     (simp_all add: b64_value_char sextet_bounds byte_high_nibble byte_top_bits)

lemma length_digits_mod:
  "length (b64_digits bs) mod 4 = (if length bs mod 3 = 0 then 0 else length bs mod 3 + 1)"
  by (induction bs rule: b64_digits.induct) (simp_all add: mod_3_step mod_4_step)

lemma encode_digits_padding:
  "b64_encode bs = b64_digits bs @ replicate ((3 - length bs mod 3) mod 3) CHR ''=''"
  by (induction bs rule: b64_digits.induct) (simp_all add: mod_3_step numeral_2_eq_2)

lemma replace_digit:
  assumes "b64_value c \<noteq> None"
  shows "replace_one CHR ''_'' CHR ''/'' (replace_one CHR ''-'' CHR ''+''
           (replace_one CHR ''/'' CHR ''_'' (replace_one CHR ''+'' CHR ''-'' c))) = c"
  using b64_value_facts(2,3) [OF assms] by (auto simp: replace_one_def)

lemma replace_digit_safe:
  assumes "b64_value c \<noteq> None"
  shows "url_safe (replace_one CHR ''/'' CHR ''_'' (replace_one CHR ''+'' CHR ''-'' c))"
  using b64_value_facts(5) [OF assms] by (auto simp: url_safe_def replace_one_def)

lemma replace_digit_not_padding:
  assumes "b64_value c \<noteq> None"
  shows "replace_one CHR ''/'' CHR ''_'' (replace_one CHR ''+'' CHR ''-'' c) \<noteq> CHR ''=''"
  using b64_value_facts(1) [OF assms] by (auto simp: replace_one_def)

lemma replace_digits:
  assumes "list_all (\<lambda>c. b64_value c \<noteq> None) ds"
  shows "replace_char CHR ''_'' CHR ''/'' (replace_char CHR ''-'' CHR ''+''
           (replace_char CHR ''/'' CHR ''_'' (replace_char CHR ''+'' CHR ''-'' ds))) = ds"
  using assms by (induction ds) (simp_all add: replace_char_def replace_digit)

lemma replace_digits_safe:
  assumes "list_all (\<lambda>c. b64_value c \<noteq> None) ds"
  shows "list_all url_safe (replace_char CHR ''/'' CHR ''_'' (replace_char CHR ''+'' CHR ''-'' ds))"
  using assms by (induction ds) (simp_all add: replace_char_def replace_digit_safe)

lemma replace_digits_not_padding:
  assumes "list_all (\<lambda>c. b64_value c \<noteq> None) ds"
  shows "list_all (\<lambda>c. c \<noteq> CHR ''='')
           (replace_char CHR ''/'' CHR ''_'' (replace_char CHR ''+'' CHR ''-'' ds))"
  using assms by (induction ds) (simp_all add: replace_char_def replace_digit_not_padding)

lemma replace_char_append:
  "replace_char x y (a @ b) = replace_char x y a @ replace_char x y b"
  by (simp add: replace_char_def)

lemma replace_char_padding:
  "x \<noteq> CHR ''='' \<Longrightarrow> replace_char x y (replicate n CHR ''='') = replicate n CHR ''=''"
  by (simp add: replace_char_def replace_one_def)

lemma length_replace_char: "length (replace_char x y s) = length s"
  by (simp add: replace_char_def)

lemma strip_trailing_equals_padding:
  assumes "list_all (\<lambda>c. c \<noteq> CHR ''='') ds"
  shows "strip_trailing_equals (ds @ replicate n CHR ''='') = ds"
proof -
  have a: "dropWhile (\<lambda>c. c = CHR ''='') (replicate n CHR ''='' @ ys) = dropWhile (\<lambda>c. c = CHR ''='') ys"
    for ys
    by (induction n) simp_all
  have b: "dropWhile (\<lambda>c. c = CHR ''='') (rev ds) = rev ds"
  proof (cases ds rule: rev_cases)
    case Nil
    then show ?thesis by simp
  next
    case (snoc ys y)
    with assms show ?thesis by simp
  qed
  show ?thesis
    by (simp add: strip_trailing_equals_def a b)
qed

lemma suffix_member: "suffix (x # xs) ds \<Longrightarrow> x \<in> set ds"
  by (auto simp: suffix_def)

lemma digits_not_padding:
  "list_all (\<lambda>c. b64_value c \<noteq> None) ds \<Longrightarrow> CHR ''='' \<notin> set ds"
  unfolding list_all_iff using b64_value_facts(1) by blast

lemma filter_digits:
  assumes "list_all (\<lambda>c. b64_value c \<noteq> None) ds"
  shows "filter (\<lambda>c. \<not> is_ascii_whitespace c) (ds @ replicate n CHR ''='') =
         ds @ replicate n CHR ''=''"
proof -
  have "\<not> is_ascii_whitespace CHR ''=''"
    by (simp add: is_ascii_whitespace_def)
  moreover from assms have "\<forall>c \<in> set ds. \<not> is_ascii_whitespace c"
    unfolding list_all_iff using b64_value_facts(4) by blast
  ultimately show ?thesis
    by (auto simp: filter_id_conv)
qed

lemma strip_b64_padding_digits:
  assumes v: "list_all (\<lambda>c. b64_value c \<noteq> None) ds"
    and m: "length ds mod 4 \<noteq> 1"
  shows "strip_b64_padding (ds @ replicate (if length ds mod 4 = 0 then 0 else 4 - length ds mod 4) CHR ''='') = ds"
proof -
  from v have ne: "CHR ''='' \<notin> set ds"
    by (rule digits_not_padding)
  have "length ds mod 4 < 4" by simp
  with m consider "length ds mod 4 = 0" | "length ds mod 4 = 2" | "length ds mod 4 = 3"
    by linarith
  then show ?thesis
  proof cases
    case 1
    from ne have "\<not> suffix ''=='' ds" and "\<not> suffix ''='' ds"
      by (auto dest: suffix_member)
    with 1 show ?thesis
      by (simp add: strip_b64_padding_def)
  next
    case 2
    then have l: "(length ds + 2) mod 4 = 0" by presburger
    have s: "suffix ''=='' (ds @ ''=='')" by (simp add: suffix_def)
    from 2 have p: "replicate (if length ds mod 4 = 0 then 0 else 4 - length ds mod 4) CHR ''='' = ''==''"
      by (simp add: numeral_2_eq_2)
    show ?thesis
      unfolding p strip_b64_padding_def using l s by (simp add: butlast_append)
  next
    case 3
    then have l: "(length ds + 1) mod 4 = 0" by presburger
    from 3 have "ds \<noteq> []" by auto
    then obtain ys y where ds: "ds = ys @ [y]"
      by (cases ds rule: rev_cases) auto
    with ne have y: "y \<noteq> CHR ''=''" by auto
    have n: "\<not> suffix ''=='' (ds @ ''='')"
      unfolding ds using y by (simp add: suffix_to_prefix)
    have s: "suffix ''='' (ds @ ''='')" by (simp add: suffix_def)
    from 3 have p: "replicate (if length ds mod 4 = 0 then 0 else 4 - length ds mod 4) CHR ''='' = ''=''"
      by simp
    show ?thesis
      unfolding p strip_b64_padding_def using l s n by simp
  qed
qed

lemma atob_digits:
  assumes v: "list_all (\<lambda>c. b64_value c \<noteq> None) ds"
    and m: "length ds mod 4 \<noteq> 1"
  shows "atob (ds @ replicate (if length ds mod 4 = 0 then 0 else 4 - length ds mod 4) CHR ''='') =
         Some (map char_of (b64_decode_sextets (map (\<lambda>c. the (b64_value c)) ds)))"
proof -
  from v have "\<not> list_ex (\<lambda>c. b64_value c = None) ds"
    by (auto simp: list_all_iff list_ex_iff)
  with m show ?thesis
    unfolding atob_def filter_digits [OF v] strip_b64_padding_digits [OF v m] Let_def
    by simp
qed

lemma units_of_bytes:
  "list_all (\<lambda>u. u \<le> 255) bs \<Longrightarrow> map of_char (map char_of bs :: string) = (bs :: nat list)"
  by (induction bs) simp_all

lemma padding_digits:
  "(if length (b64_digits bs) mod 4 = 0 then 0 else 4 - length (b64_digits bs) mod 4) =
   (3 - length bs mod 3) mod 3"
proof -
  have "length bs mod 3 < 3" by simp
  then consider "length bs mod 3 = 0" | "length bs mod 3 = 1" | "length bs mod 3 = 2"
    by linarith
  then show ?thesis
    by cases (simp_all add: length_digits_mod)
qed

lemma digits_length_ok: "length (b64_digits bs) mod 4 \<noteq> 1"
  by (simp add: length_digits_mod)

lemma latin1_iff: "\<not> list_ex (\<lambda>u. 255 < u) bs \<longleftrightarrow> list_all (\<lambda>u. u \<le> (255::nat)) bs"
  by (auto simp: list_all_iff list_ex_iff not_less)

lemma encodeUploadState_digits:
  assumes latin: "list_all (\<lambda>u. u \<le> 255) (stringify s)"
  shows "encodeUploadState stringify s =
         Inr (replace_char CHR ''/'' CHR ''_''
                (replace_char CHR ''+'' CHR ''-'' (b64_digits (stringify s))))"
proof -
  from latin have b: "btoa (stringify s) = Some (b64_encode (stringify s))"
    by (simp add: btoa_def latin1_iff)
  note v = digits_valid [OF latin]
  show ?thesis
    unfolding encodeUploadState_def Let_def b encode_digits_padding
    by (simp add: replace_char_append replace_char_padding
        strip_trailing_equals_padding [OF replace_digits_not_padding [OF v]])
qed

lemma decodeUploadState_digits:
  assumes latin: "list_all (\<lambda>u. u \<le> 255) (stringify s)"
    and rt: "parse (stringify s) = Some s"
  shows "decodeUploadState parse
           (replace_char CHR ''/'' CHR ''_''
              (replace_char CHR ''+'' CHR ''-'' (b64_digits (stringify s)))) = Inr s"
proof -
  note v = digits_valid [OF latin]
  show ?thesis
    unfolding decodeUploadState_def Let_def replace_digits [OF v]
      atob_digits [OF v digits_length_ok] digits_decode [OF latin]
    by (simp add: units_of_bytes [OF latin, unfolded map_map] rt)
qed

lemma strip_b64_padding_keeps:
  assumes "c \<in> set x" "c \<noteq> CHR ''=''"
  shows "c \<in> set (strip_b64_padding x)"
proof -
  have one: "c \<in> set (butlast y)" if "c \<in> set y" "suffix ''='' y" for y
  proof -
    from that(2) obtain zs where "y = zs @ ''=''" by (auto simp: suffix_def)
    with that(1) assms(2) show ?thesis by auto
  qed
  have two: "c \<in> set (butlast (butlast y))" if "c \<in> set y" "suffix ''=='' y" for y
  proof -
    from that(2) obtain zs where "y = zs @ ''==''" by (auto simp: suffix_def)
    with that(1) assms(2) show ?thesis by (auto simp: butlast_append)
  qed
  from assms(1) show ?thesis
    by (simp add: strip_b64_padding_def one two)
qed

lemma decodeUploadState_rejects:
  assumes "list_ex (\<lambda>c. \<not> tolerated c) tok"
  shows "decodeUploadState parse tok = Inl InvalidCharacterError"
proof -
  from assms obtain c where c: "c \<in> set tok" "\<not> tolerated c"
    by (auto simp: list_ex_iff)
  from c(2) have n: "c \<noteq> CHR ''-''" "c \<noteq> CHR ''_''" "c \<noteq> CHR ''=''"
    "\<not> is_ascii_whitespace c" "\<not> is_alnum c" "c \<noteq> CHR ''+''" "c \<noteq> CHR ''/''"
    by (auto simp: tolerated_def url_safe_def)
  from n(5-7) have bad: "b64_value c = None"
    using b64_value_facts(5) [of c] by blast
  define padded where "padded = replace_char CHR ''_'' CHR ''/'' (replace_char CHR ''-'' CHR ''+'' tok)"
  from c(1) n(1,2) have "replace_one CHR ''_'' CHR ''/'' (replace_one CHR ''-'' CHR ''+'' c) \<in> set padded"
    unfolding padded_def replace_char_def by simp
  with n(1,2) have "c \<in> set padded"
    by (simp add: replace_one_def)
  with n(4) have "c \<in> set (filter (\<lambda>c. \<not> is_ascii_whitespace c) (padded @ replicate k CHR ''=''))"
    for k by simp
  then have "c \<in> set (strip_b64_padding
      (filter (\<lambda>c. \<not> is_ascii_whitespace c) (padded @ replicate k CHR ''='')))" for k
    using n(3) by (rule strip_b64_padding_keeps)
  with bad have "list_ex (\<lambda>c. b64_value c = None) (strip_b64_padding
      (filter (\<lambda>c. \<not> is_ascii_whitespace c) (padded @ replicate k CHR ''='')))" for k
    unfolding list_ex_iff by blast
  then have "atob (padded @ replicate k CHR ''='') = None" for k
    by (simp add: atob_def Let_def)
  then show ?thesis
    unfolding decodeUploadState_def Let_def padded_def [symmetric] by simp
qed

lemma encodeUploadState_throws:
  "list_ex (\<lambda>u. 255 < u) (stringify s) \<Longrightarrow>
     encodeUploadState stringify s = Inl InvalidCharacterError"
  by (simp add: encodeUploadState_def btoa_def)

lemma url_safe_chars:
  "url_safe c \<Longrightarrow> c \<noteq> CHR ''='' \<and> c \<noteq> CHR ''+'' \<and> c \<noteq> CHR ''/''"
  by (auto simp: url_safe_def is_alnum_def)

text \<open>
  Claim C4. Let \<open>s\<close> be a state that \<open>JSON.parse\<close> recovers from its JSON text, and let
  that text have no code unit above 255. Then \<open>encodeUploadState\<close> returns a token,
  \<open>decodeUploadState\<close> maps the token back to \<open>s\<close>, and the token consists of letters,
  digits, \<open>-\<close> and \<open>_\<close> only: it has no \<open>=\<close>, no \<open>+\<close> and no \<open>/\<close>. Moreover
  \<open>decodeUploadState\<close> throws on every token that has a character other than a letter, a
  digit, \<open>-\<close>, \<open>_\<close>, \<open>+\<close>, \<open>/\<close>, \<open>=\<close> and ASCII white space. Nothing is said about the other
  tokens that \<open>encodeUploadState\<close> does not produce: some of them decode to a state.
\<close>

theorem C4_upload_state_codec:
  assumes rt: "parse (stringify s) = Some s"
    and latin: "list_all (\<lambda>u. u \<le> 255) (stringify s)"
  shows "(\<exists>token. encodeUploadState stringify s = Inr token
            \<and> decodeUploadState parse token = Inr s
            \<and> list_all url_safe token
            \<and> CHR ''='' \<notin> set token \<and> CHR ''+'' \<notin> set token \<and> CHR ''/'' \<notin> set token)
       \<and> (list_ex (\<lambda>c. \<not> tolerated c) tok
            \<longrightarrow> decodeUploadState parse tok = Inl InvalidCharacterError)"
proof -
  let ?t = "replace_char CHR ''/'' CHR ''_''
              (replace_char CHR ''+'' CHR ''-'' (b64_digits (stringify s)))"
  have e: "encodeUploadState stringify s = Inr ?t"
    using latin by (rule encodeUploadState_digits [where stringify = stringify and s = s])
  have d: "decodeUploadState parse ?t = Inr s"
    using latin rt
    by (rule decodeUploadState_digits [where stringify = stringify and s = s and parse = parse])
  have u: "list_all url_safe ?t"
    by (rule replace_digits_safe [OF digits_valid [OF latin]])
  then have n: "CHR ''='' \<notin> set ?t \<and> CHR ''+'' \<notin> set ?t \<and> CHR ''/'' \<notin> set ?t"
    unfolding list_all_iff using url_safe_chars by blast
  from e d u n have "\<exists>token. encodeUploadState stringify s = Inr token
            \<and> decodeUploadState parse token = Inr s
            \<and> list_all url_safe token
            \<and> CHR ''='' \<notin> set token \<and> CHR ''+'' \<notin> set token \<and> CHR ''/'' \<notin> set token"
    by blast
  then show ?thesis
    using decodeUploadState_rejects [of tok parse] by blast
qed

theorem C4_upload_state_codec_witness:
  "parse_empty_object (empty_object_stringify ()) = Some ()
   \<and> list_all (\<lambda>u. u \<le> 255) (empty_object_stringify ())
   \<and> encodeUploadState empty_object_stringify () = Inr ''e30''
   \<and> decodeUploadState parse_empty_object ''e30'' = Inr ()
   \<and> list_ex (\<lambda>c. \<not> tolerated c) ''e30!''
   \<and> decodeUploadState parse_empty_object ''e30!'' = Inl InvalidCharacterError"
proof -
  have h1: "parse_empty_object (empty_object_stringify ()) = Some ()"
    by code_simp
  have h2: "list_all (\<lambda>u. u \<le> 255) (empty_object_stringify ())"
    by code_simp
  have h3: "list_ex (\<lambda>c. \<not> tolerated c) ''e30!''"
    by code_simp
  have e: "encodeUploadState empty_object_stringify () = Inr ''e30''"
    by code_simp
  from C4_upload_state_codec [where parse = parse_empty_object
      and stringify = empty_object_stringify and s = "()" and tok = "''e30!''", OF h1 h2] h3 e
  have "decodeUploadState parse_empty_object ''e30'' = Inr ()"
    and "decodeUploadState parse_empty_object ''e30!'' = Inl InvalidCharacterError"
    by auto
  with h1 h2 h3 e show ?thesis
    by blast
qed

theorem C4_foreign_token_decodes_counterexample:
  "decodeUploadState parse_empty_object ''e30='' = Inr ()
   \<and> encodeUploadState empty_object_stringify () = Inr ''e30''
   \<and> decodeUploadState parse_empty_object ''e3 0'' = Inr ()
   \<and> encodeUploadState wide_object_stringify () = Inl InvalidCharacterError"
  by code_simp
end
